theory Spec2Isabelle
  imports Main "HOL-Library.Word" "HOL-Library.Multiset"
begin

section \<open>Tracked delivery of metrics (package metric)\<close>

text \<open>
  The tracking file of the metric package wraps a metric with a pointer to a shared
  \<open>trackingData\<close> record: a reference count, an accept counter, a reject counter and
  the producer's notify function. The model below is sequential. Every object the Go code
  reaches through a pointer lives in an explicit store, so that sharing is visible:
  \<^item> \<open>heap\<close> holds the \<open>trackingData\<close> records, a pointer is an index into it, and a
    pointer outside the heap stands for a nil dereference;
  \<^item> \<open>mem\<close> holds the cells of metric slices, a slice is a start address and a length;
  \<^item> \<open>trackingStore\<close> is the package-level map from id to tracking data that
    \<open>decr\<close> deletes from; its declaration (and the mutex \<open>mu\<close> guarding it) is outside
    this file, so the map is a component of the state and may hold any entries;
  \<^item> \<open>notified\<close> is the trace of calls made to notify functions, in order, each with the
    \<open>deliveryInfo\<close> passed.
  The counters are 32-bit words read as signed (\<open>sint\<close>), the id counter a 64-bit word:
  \<open>atomic.AddInt32\<close> and \<open>atomic.AddUint64\<close> wrap around. The mutex is free whenever a
  sequential call reaches it and is released on return, and the finalizer only concerns the
  garbage collector; neither has a component in the state.
\<close>

subsection \<open>Data\<close>

type_synonym TrackingID = "64 word"
type_synonym int32 = "32 word"

record deliveryInfo =
  id_di :: TrackingID
  accepted :: int
  rejected :: int

text \<open>A notify function is opaque: the model records that it was called, and with what,
  and whether the call returned or panicked.\<close>

datatype outcome = Returns | Panics

type_synonym NotifyFunc = "deliveryInfo \<Rightarrow> outcome"

record trackingData =
  Id_td :: TrackingID
  Rc :: int32
  AcceptCount :: int32
  RejectCount :: int32
  notifyFunc :: NotifyFunc

text \<open>The struct \<open>trackingMetric\<close> embeds a \<open>telegraf.Metric\<close> and points to its
  tracking data. The interface \<open>telegraf.Metric\<close> is either a metric of another
  implementation (\<open>Plain\<close>, over an arbitrary type of values) or a tracking metric.\<close>

datatype 'x trackingMetric = trackingMetric (Metric: 'x) (d: nat)

datatype 'm Metric = Plain 'm | Tracking "'m Metric trackingMetric"

record slice =
  ptr :: nat
  len :: nat

datatype error = NegativeRefcount | NilPointer | CallbackPanic

record 'm state =
  lastID :: "64 word"
  heap :: "trackingData list"
  mem :: "nat \<Rightarrow> 'm Metric"
  trackingStore :: "TrackingID \<rightharpoonup> nat"
  notified :: "deliveryInfo list"

text \<open>The state of a fresh process: no id issued, nothing allocated, an empty registry,
  no notification. The initial content of the slice memory is a parameter.\<close>

definition init_state :: "'m Metric \<Rightarrow> 'm state" where
  "init_state m0 =
     \<lparr>lastID = 0, heap = [], mem = (\<lambda>_. m0), trackingStore = Map.empty, notified = []\<rparr>"

subsection \<open>Identifiers\<close>

definition newTrackingID :: "'m state \<Rightarrow> TrackingID \<times> 'm state" where
  "newTrackingID s = (lastID s + 1, s\<lparr>lastID := lastID s + 1\<rparr>)"

subsection \<open>Methods of trackingData\<close>

definition deref :: "nat \<Rightarrow> 'm state \<Rightarrow> trackingData option" where
  "deref a s = (if a < length (heap s) then Some (heap s ! a) else None)"

definition incr :: "nat \<Rightarrow> 'm state \<Rightarrow> (error + unit) \<times> 'm state" where
  "incr a s =
     (case deref a s of
        None \<Rightarrow> (Inl NilPointer, s)
      | Some r \<Rightarrow> (Inr (), s\<lparr>heap := (heap s)[a := r\<lparr>Rc := Rc r + 1\<rparr>]\<rparr>))"

definition RefCount :: "nat \<Rightarrow> 'm state \<Rightarrow> error + int32" where
  "RefCount a s = (case deref a s of None \<Rightarrow> Inl NilPointer | Some r \<Rightarrow> Inr (Rc r))"

definition decr :: "nat \<Rightarrow> 'm state \<Rightarrow> (error + int32) \<times> 'm state" where
  "decr a s =
     (case deref a s of
        None \<Rightarrow> (Inl NilPointer, s)
      | Some r \<Rightarrow> (Inr (Rc r - 1), s\<lparr>heap := (heap s)[a := r\<lparr>Rc := Rc r - 1\<rparr>]\<rparr>))"

definition accept :: "nat \<Rightarrow> 'm state \<Rightarrow> (error + unit) \<times> 'm state" where
  "accept a s =
     (case deref a s of
        None \<Rightarrow> (Inl NilPointer, s)
      | Some r \<Rightarrow> (Inr (), s\<lparr>heap := (heap s)[a := r\<lparr>AcceptCount := AcceptCount r + 1\<rparr>]\<rparr>))"

definition reject :: "nat \<Rightarrow> 'm state \<Rightarrow> (error + unit) \<times> 'm state" where
  "reject a s =
     (case deref a s of
        None \<Rightarrow> (Inl NilPointer, s)
      | Some r \<Rightarrow> (Inr (), s\<lparr>heap := (heap s)[a := r\<lparr>RejectCount := RejectCount r + 1\<rparr>]\<rparr>))"

text \<open>The delivery information \<open>notify\<close> builds from the record.\<close>

definition info_of :: "trackingData \<Rightarrow> deliveryInfo" where
  "info_of r =
     \<lparr>id_di = Id_td r, accepted = sint (AcceptCount r), rejected = sint (RejectCount r)\<rparr>"

definition notify :: "nat \<Rightarrow> 'm state \<Rightarrow> (error + unit) \<times> 'm state" where
  "notify a s =
     (case deref a s of
        None \<Rightarrow> (Inl NilPointer, s)
      | Some r \<Rightarrow>
          (case notifyFunc r (info_of r) of
             Returns \<Rightarrow> (Inr (), s\<lparr>notified := notified s @ [info_of r]\<rparr>)
           | Panics \<Rightarrow> (Inl CallbackPanic, s\<lparr>notified := notified s @ [info_of r]\<rparr>)))"

subsection \<open>Methods of deliveryInfo\<close>

definition ID :: "deliveryInfo \<Rightarrow> TrackingID" where
  "ID r = id_di r"

definition Delivered :: "deliveryInfo \<Rightarrow> bool" where
  "Delivered r = (rejected r = 0)"

subsection \<open>Creating tracking metrics\<close>

definition newTrackingMetric ::
  "'m Metric \<Rightarrow> NotifyFunc \<Rightarrow> 'm state \<Rightarrow> ('m Metric \<times> TrackingID) \<times> 'm state" where
  "newTrackingMetric metric fn s =
     (case newTrackingID s of
        (tid, s1) \<Rightarrow>
          (let r = \<lparr>Id_td = tid, Rc = 1, AcceptCount = 0, RejectCount = 0, notifyFunc = fn\<rparr>;
               m = trackingMetric metric (length (heap s1))
           in ((Tracking m, Id_td r), s1\<lparr>heap := heap s1 @ [r]\<rparr>)))"

text \<open>The loop of \<open>newTrackingMetricGroup\<close> over the indices of the slice: it reads the
  cell, counts one more reference and overwrites the cell with the wrapper.\<close>

fun range_group :: "slice \<Rightarrow> nat \<Rightarrow> nat list \<Rightarrow> 'm state \<Rightarrow> (error + unit) \<times> 'm state" where
  "range_group grp a [] s = (Inr (), s)"
| "range_group grp a (i # js) s =
     (let m = mem s (ptr grp + i) in
      case incr a s of
        (Inl e, s1) \<Rightarrow> (Inl e, s1)
      | (Inr _, s1) \<Rightarrow>
          range_group grp a js
            (s1\<lparr>mem := (mem s1)(ptr grp + i := Tracking (trackingMetric m a))\<rparr>))"

definition newTrackingMetricGroup ::
  "slice \<Rightarrow> NotifyFunc \<Rightarrow> 'm state \<Rightarrow> (error + slice \<times> TrackingID) \<times> 'm state" where
  "newTrackingMetricGroup grp fn s =
     (case newTrackingID s of
        (tid, s1) \<Rightarrow>
          (let r = \<lparr>Id_td = tid, Rc = 0, AcceptCount = 0, RejectCount = 0, notifyFunc = fn\<rparr>;
               a = length (heap s1)
           in case range_group grp a [0..<len grp] (s1\<lparr>heap := heap s1 @ [r]\<rparr>) of
                (Inl e, s2) \<Rightarrow> (Inl e, s2)
              | (Inr _, s2) \<Rightarrow>
                  (case (if len grp = 0 then notify a s2 else (Inr (), s2)) of
                     (Inl e, s3) \<Rightarrow> (Inl e, s3)
                   | (Inr _, s3) \<Rightarrow>
                       (case deref a s3 of
                          None \<Rightarrow> (Inl NilPointer, s3)
                        | Some r3 \<Rightarrow> (Inr (grp, Id_td r3), s3)))))"

definition WithTracking ::
  "'m Metric \<Rightarrow> NotifyFunc \<Rightarrow> 'm state \<Rightarrow> ('m Metric \<times> TrackingID) \<times> 'm state" where
  "WithTracking metric fn s = newTrackingMetric metric fn s"

definition WithGroupTracking ::
  "slice \<Rightarrow> NotifyFunc \<Rightarrow> 'm state \<Rightarrow> (error + slice \<times> TrackingID) \<times> 'm state" where
  "WithGroupTracking metric fn s = newTrackingMetricGroup metric fn s"

subsection \<open>Methods of trackingMetric\<close>

text \<open>Modelled from the spec: the \<open>Copy\<close> method of a metric of another
  implementation, which is not in this file. It is a deep copy of the metric value: on
  values, the same value. It touches nothing of the tracking state.\<close>

definition Copy_plain :: "'m \<Rightarrow> 'm" where
  "Copy_plain p = p"

text \<open>\<open>Copy\<close> counts a reference and then copies the embedded metric through the
  interface, so that a tracking metric embedded in a tracking metric is copied by
  \<open>Copy\<close> again.\<close>

function (sequential) Copy ::
    "'m Metric trackingMetric \<Rightarrow> 'm state \<Rightarrow> (error + 'm Metric) \<times> 'm state"
  and Metric_Copy :: "'m Metric \<Rightarrow> 'm state \<Rightarrow> (error + 'm Metric) \<times> 'm state" where
  "Copy (trackingMetric x a) s =
     (case incr a s of
        (Inl e, s1) \<Rightarrow> (Inl e, s1)
      | (Inr _, s1) \<Rightarrow>
          (case Metric_Copy x s1 of
             (Inl e, s2) \<Rightarrow> (Inl e, s2)
           | (Inr c, s2) \<Rightarrow> (Inr (Tracking (trackingMetric c a)), s2)))"
| "Metric_Copy (Plain p) s = (Inr (Plain (Copy_plain p)), s)"
| "Metric_Copy (Tracking m) s = Copy m s"
  by pat_completeness auto
termination
  apply (relation "measure (\<lambda>x. case x of Inl (m, s) \<Rightarrow> 2 * size (Metric m) + 1
                                         | Inr (x, s) \<Rightarrow> 2 * size x)")
    apply simp
   apply simp
  subgoal for m s by (cases m) simp
  done

definition trackingMetric_decr ::
  "'x trackingMetric \<Rightarrow> 'm state \<Rightarrow> (error + unit) \<times> 'm state" where
  "trackingMetric_decr m s =
     (case decr (d m) s of
        (Inl e, s1) \<Rightarrow> (Inl e, s1)
      | (Inr v, s1) \<Rightarrow>
          if sint v < 0 then (Inl NegativeRefcount, s1)
          else if v = 0 then
            (case notify (d m) s1 of
               (Inl e, s2) \<Rightarrow> (Inl e, s2)
             | (Inr _, s2) \<Rightarrow>
                 (case deref (d m) s2 of
                    None \<Rightarrow> (Inl NilPointer, s2)
                  | Some r \<Rightarrow>
                      (Inr (), s2\<lparr>trackingStore := (trackingStore s2)(Id_td r := None)\<rparr>)))
          else (Inr (), s1))"

definition Accept :: "'x trackingMetric \<Rightarrow> 'm state \<Rightarrow> (error + unit) \<times> 'm state" where
  "Accept m s =
     (case accept (d m) s of
        (Inl e, s1) \<Rightarrow> (Inl e, s1)
      | (Inr _, s1) \<Rightarrow> trackingMetric_decr m s1)"

definition Reject :: "'x trackingMetric \<Rightarrow> 'm state \<Rightarrow> (error + unit) \<times> 'm state" where
  "Reject m s =
     (case reject (d m) s of
        (Inl e, s1) \<Rightarrow> (Inl e, s1)
      | (Inr _, s1) \<Rightarrow> trackingMetric_decr m s1)"

definition Drop :: "'x trackingMetric \<Rightarrow> 'm state \<Rightarrow> (error + unit) \<times> 'm state" where
  "Drop m s = trackingMetric_decr m s"

definition TrackingID :: "'x trackingMetric \<Rightarrow> 'm state \<Rightarrow> error + TrackingID" where
  "TrackingID m s = (case deref (d m) s of None \<Rightarrow> Inl NilPointer | Some r \<Rightarrow> Inr (Id_td r))"

subsection \<open>Sequences of calls\<close>

text \<open>The claims speak of sequences of calls: ids issued one after the other, the
  metrics of a slice resolved one after the other, copies and resolutions of the instances
  of one record. A sequence stops at the first panic.\<close>

fun issue :: "nat \<Rightarrow> 'm state \<Rightarrow> TrackingID list \<times> 'm state" where
  "issue 0 s = ([], s)"
| "issue (Suc n) s =
     (case newTrackingID s of
        (i, s1) \<Rightarrow> (case issue n s1 of (js, s2) \<Rightarrow> (i # js, s2)))"

definition slice_elems :: "'m state \<Rightarrow> slice \<Rightarrow> 'm Metric list" where
  "slice_elems s grp = map (\<lambda>i. mem s (ptr grp + i)) [0..<len grp]"

datatype resolution = ByAccept | ByReject | ByDrop

fun resolve :: "resolution \<Rightarrow> 'x trackingMetric \<Rightarrow> 'm state \<Rightarrow> (error + unit) \<times> 'm state" where
  "resolve ByAccept m s = Accept m s"
| "resolve ByReject m s = Reject m s"
| "resolve ByDrop m s = Drop m s"

fun resolve_all ::
  "(resolution \<times> 'x trackingMetric) list \<Rightarrow> 'm state \<Rightarrow> (error + unit) \<times> 'm state" where
  "resolve_all [] s = (Inr (), s)"
| "resolve_all ((r, m) # rs) s =
     (case resolve r m s of
        (Inl e, s1) \<Rightarrow> (Inl e, s1)
      | (Inr _, s1) \<Rightarrow> resolve_all rs s1)"

text \<open>Calls on the live instances of one record. Over a metric of another
  implementation a copy is, as a value, the instance it was copied from, so the calls of a
  sequence are all made on that one value; what tells the instances apart is only how many
  of them are live. A sequence is disciplined from \<open>n\<close> live instances when every call
  is made while an instance is live: a copy adds a live instance, a resolution ends one.
  \<open>live_within b n cs\<close> bounds the number of live instances along the sequence.\<close>

datatype call = MakeCopy | Resolve resolution

fun run_calls ::
  "call list \<Rightarrow> 'm Metric trackingMetric \<Rightarrow> 'm state \<Rightarrow> (error + unit) \<times> 'm state" where
  "run_calls [] m s = (Inr (), s)"
| "run_calls (MakeCopy # cs) m s =
     (case Copy m s of
        (Inl e, s1) \<Rightarrow> (Inl e, s1)
      | (Inr _, s1) \<Rightarrow> run_calls cs m s1)"
| "run_calls (Resolve r # cs) m s =
     (case resolve r m s of
        (Inl e, s1) \<Rightarrow> (Inl e, s1)
      | (Inr _, s1) \<Rightarrow> run_calls cs m s1)"

fun disciplined :: "nat \<Rightarrow> call list \<Rightarrow> bool" where
  "disciplined n [] = True"
| "disciplined n (MakeCopy # cs) = (0 < n \<and> disciplined (Suc n) cs)"
| "disciplined n (Resolve r # cs) = (0 < n \<and> disciplined (n - 1) cs)"

fun live_within :: "nat \<Rightarrow> nat \<Rightarrow> call list \<Rightarrow> bool" where
  "live_within b n [] = (n \<le> b)"
| "live_within b n (MakeCopy # cs) = (n \<le> b \<and> live_within b (Suc n) cs)"
| "live_within b n (Resolve r # cs) = (n \<le> b \<and> live_within b (n - 1) cs)"

text \<open>A notify function that returns and one that panics, for the concrete runs
  below.\<close>

definition fn_returns :: NotifyFunc where
  "fn_returns i = Returns"

definition fn_panics :: NotifyFunc where
  "fn_panics i = Panics"

text \<open>Modelled from the spec: \<open>register(id, record)\<close> of the registry, whose code is
  not in this file: it enters the record under the id.\<close>

definition register :: "TrackingID \<Rightarrow> nat \<Rightarrow> 'm state \<Rightarrow> 'm state" where
  "register tid a s = s\<lparr>trackingStore := (trackingStore s)(tid \<mapsto> a)\<rparr>"

text \<open>The state in which the creation of a group over the slice \<open>g\<close> leaves the
  identifier counter, the heap and the slice memory (lemma \<open>newTrackingMetricGroup_eq\<close>).\<close>

definition group_state :: "slice \<Rightarrow> NotifyFunc \<Rightarrow> 'm state \<Rightarrow> 'm state" where
  "group_state g fn s =
     s\<lparr>lastID := lastID s + 1,
       heap := heap s @ [\<lparr>Id_td = lastID s + 1, Rc = of_nat (len g), AcceptCount = 0,
                          RejectCount = 0, notifyFunc = fn\<rparr>],
       mem := (\<lambda>x. if ptr g \<le> x \<and> x < ptr g + len g
                     then Tracking (trackingMetric (mem s x) (length (heap s))) else mem s x)\<rparr>"

text \<open>The record after the counter update of a resolution: \<open>Accept\<close> counts an accept,
  \<open>Reject\<close> a reject, \<open>Drop\<close> nothing.\<close>

definition counted :: "resolution \<Rightarrow> trackingData \<Rightarrow> trackingData" where
  "counted r t =
     (case r of
        ByAccept \<Rightarrow> t\<lparr>AcceptCount := AcceptCount t + 1\<rparr>
      | ByReject \<Rightarrow> t\<lparr>RejectCount := RejectCount t + 1\<rparr>
      | ByDrop \<Rightarrow> t)"

text \<open>The record after a resolution that is not the last one, and the numbers of accepts,
  rejects and drops in a sequence of resolutions.\<close>

definition resolved :: "resolution \<Rightarrow> trackingData \<Rightarrow> trackingData" where
  "resolved r t = (counted r t)\<lparr>Rc := Rc t - 1\<rparr>"

definition accepts :: "(resolution \<times> 'x) list \<Rightarrow> nat" where
  "accepts rs = length (filter (\<lambda>p. fst p = ByAccept) rs)"

definition rejects :: "(resolution \<times> 'x) list \<Rightarrow> nat" where
  "rejects rs = length (filter (\<lambda>p. fst p = ByReject) rs)"

definition drops :: "(resolution \<times> 'x) list \<Rightarrow> nat" where
  "drops rs = length (filter (\<lambda>p. fst p = ByDrop) rs)"

text \<open>The records a metric points to through its wrappers, outermost first, and the
  heap after one more reference has been counted on each record of a list.\<close>

fun refs :: "'m Metric \<Rightarrow> nat list" where
  "refs (Plain p) = []"
| "refs (Tracking (trackingMetric x a)) = a # refs x"

definition incr_at :: "nat \<Rightarrow> trackingData list \<Rightarrow> trackingData list" where
  "incr_at a h = h[a := (h ! a)\<lparr>Rc := Rc (h ! a) + 1\<rparr>]"

definition incr_refs :: "nat list \<Rightarrow> trackingData list \<Rightarrow> trackingData list" where
  "incr_refs as h = foldl (\<lambda>h a. incr_at a h) h as"

section \<open>What each operation does to the state\<close>

lemma sint_of_nat_small: "n < 2 ^ 31 \<Longrightarrow> sint (of_nat n :: 32 word) = int n"
  by (simp add: signed_of_nat signed_take_bit_int_eq_self)

lemma of_nat_32_eq_0: "n < 2 ^ 32 \<Longrightarrow> (of_nat n :: 32 word) = 0 \<longleftrightarrow> n = 0"
  using of_nat_neq_0 [of n, where 'a = 32] by auto

lemma newTrackingMetric_eq:
  "newTrackingMetric m fn s =
     ((Tracking (trackingMetric m (length (heap s))), lastID s + 1),
      s\<lparr>lastID := lastID s + 1,
        heap := heap s @ [\<lparr>Id_td = lastID s + 1, Rc = 1, AcceptCount = 0, RejectCount = 0,
                           notifyFunc = fn\<rparr>]\<rparr>)"
  by (simp add: newTrackingMetric_def newTrackingID_def Let_def)

lemma trackingMetric_decr_eq:
  assumes "d m < length (heap s)"
  shows "trackingMetric_decr m s =
     (let r = (heap s ! d m)\<lparr>Rc := Rc (heap s ! d m) - 1\<rparr>;
          s1 = s\<lparr>heap := (heap s)[d m := r]\<rparr>
      in if sint (Rc r) < 0 then (Inl NegativeRefcount, s1)
         else if Rc r = 0 then
           (case notifyFunc r (info_of r) of
              Returns \<Rightarrow> (Inr (), s1\<lparr>notified := notified s @ [info_of r],
                                     trackingStore := (trackingStore s)(Id_td r := None)\<rparr>)
            | Panics \<Rightarrow> (Inl CallbackPanic, s1\<lparr>notified := notified s @ [info_of r]\<rparr>))
         else (Inr (), s1))"
  using assms
  by (simp add: trackingMetric_decr_def decr_def notify_def deref_def Let_def
           split: outcome.splits)

lemma Accept_eq:
  assumes "d m < length (heap s)"
  shows "Accept m s =
     trackingMetric_decr m
       (s\<lparr>heap := (heap s)[d m := (heap s ! d m)
                                   \<lparr>AcceptCount := AcceptCount (heap s ! d m) + 1\<rparr>]\<rparr>)"
  using assms by (simp add: Accept_def accept_def deref_def)

lemma Reject_eq:
  assumes "d m < length (heap s)"
  shows "Reject m s =
     trackingMetric_decr m
       (s\<lparr>heap := (heap s)[d m := (heap s ! d m)
                                   \<lparr>RejectCount := RejectCount (heap s ! d m) + 1\<rparr>]\<rparr>)"
  using assms by (simp add: Reject_def reject_def deref_def)

lemma Copy_over_plain:
  assumes "d m < length (heap s)" and "Metric m = Plain p"
  shows "Copy m s =
     (Inr (Tracking m),
      s\<lparr>heap := (heap s)[d m := (heap s ! d m)\<lparr>Rc := Rc (heap s ! d m) + 1\<rparr>]\<rparr>)"
  using assms by (cases m) (simp add: incr_def deref_def Copy_plain_def)

lemma range_group_eq:
  "a < length (heap s) \<Longrightarrow> distinct js \<Longrightarrow>
   range_group g a js s =
     (Inr (),
      s\<lparr>heap := (heap s)[a := (heap s ! a)\<lparr>Rc := Rc (heap s ! a) + of_nat (length js)\<rparr>],
        mem := (\<lambda>x. if x \<in> (\<lambda>i. ptr g + i) ` set js
                      then Tracking (trackingMetric (mem s x) a) else mem s x)\<rparr>)"
proof (induction js arbitrary: s)
  case Nil
  then show ?case by simp
next
  case (Cons i js)
  let ?s1 = "s\<lparr>heap := (heap s)[a := (heap s ! a)\<lparr>Rc := Rc (heap s ! a) + 1\<rparr>]\<rparr>"
  let ?s2 = "?s1\<lparr>mem := (mem ?s1)(ptr g + i := Tracking (trackingMetric (mem s (ptr g + i)) a))\<rparr>"
  have step: "range_group g a (i # js) s = range_group g a js ?s2"
    using Cons.prems by (simp add: incr_def deref_def Let_def)
  have "a < length (heap ?s2)" "distinct js" using Cons.prems by simp_all
  note IH = Cons.IH [OF this]
  show ?case
    unfolding step IH using Cons.prems
    by (auto simp: fun_eq_iff add.assoc intro!: state.equality)
qed

lemma image_add_upt: "(\<lambda>i. p + i) ` set [0..<n] = {x. p \<le> x \<and> x < p + (n::nat)}"
  by (auto simp: image_iff intro: le_Suc_ex)

lemma newTrackingMetricGroup_eq:
  "newTrackingMetricGroup g fn s =
     (if len g = 0 then
        (case fn \<lparr>id_di = lastID s + 1, accepted = 0, rejected = 0\<rparr> of
           Returns \<Rightarrow> Inr (g, lastID s + 1) | Panics \<Rightarrow> Inl CallbackPanic,
         (group_state g fn s)
           \<lparr>notified := notified s @ [\<lparr>id_di = lastID s + 1, accepted = 0, rejected = 0\<rparr>]\<rparr>)
      else (Inr (g, lastID s + 1), group_state g fn s))"
  by (auto simp add: newTrackingMetricGroup_def newTrackingID_def Let_def range_group_eq
        image_add_upt notify_def deref_def info_of_def group_state_def nth_append fun_eq_iff
        split: outcome.splits intro!: state.equality)

lemma upt_0_Suc: "[0..<Suc n] = 0 # map Suc [0..<n]"
  by (simp add: upt_conv_Cons map_Suc_upt del: upt_Suc)

lemma issue_eq:
  "issue n s =
     (map (\<lambda>k. lastID s + of_nat (Suc k)) [0..<n], s\<lparr>lastID := lastID s + of_nat n\<rparr>)"
proof (induction n arbitrary: s)
  case 0
  show ?case by simp
next
  case (Suc n)
  show ?case
    unfolding upt_0_Suc
    by (simp add: Suc.IH newTrackingID_def add.assoc comp_def del: upt_Suc)
qed

lemma unat_issue:
  assumes "n < 2 ^ 64"
  shows "map unat (fst (issue n (init_state m0))) = [1..<Suc n]"
proof -
  have "unat (of_nat (Suc k) :: 64 word) = Suc k" if "k < n" for k
    using that assms by (simp add: unat_of_nat del: of_nat_Suc)
  then have "map unat (fst (issue n (init_state m0))) = map Suc [0..<n]"
    by (simp add: issue_eq init_state_def del: of_nat_Suc)
  then show ?thesis by (simp add: map_Suc_upt del: upt_Suc)
qed

lemma counter_before_decrement:
  "Accept m s = trackingMetric_decr m (snd (accept (d m) s))"
  "Reject m s = trackingMetric_decr m (snd (reject (d m) s))"
  by (simp_all add: Accept_def Reject_def accept_def reject_def trackingMetric_decr_def
        decr_def deref_def)

lemma resolve_eq:
  assumes "d m < length (heap s)"
  shows "resolve r m s =
     trackingMetric_decr m
       (case r of
          ByAccept \<Rightarrow> s\<lparr>heap := (heap s)[d m := (heap s ! d m)
                                   \<lparr>AcceptCount := AcceptCount (heap s ! d m) + 1\<rparr>]\<rparr>
        | ByReject \<Rightarrow> s\<lparr>heap := (heap s)[d m := (heap s ! d m)
                                   \<lparr>RejectCount := RejectCount (heap s ! d m) + 1\<rparr>]\<rparr>
        | ByDrop \<Rightarrow> s)"
  using assms by (cases r) (simp_all add: Accept_eq Reject_eq Drop_def)

lemma resolve_nil:
  assumes "\<not> d m < length (heap s)"
  shows "resolve r m s = (Inl NilPointer, s)"
  using assms
  by (cases r)
     (simp_all add: Accept_def Reject_def Drop_def accept_def reject_def trackingMetric_decr_def
        decr_def deref_def)

lemma resolve_valid:
  assumes "d m < length (heap s)"
  shows "resolve r m s =
     (let t = (counted r (heap s ! d m))\<lparr>Rc := Rc (heap s ! d m) - 1\<rparr>;
          s1 = s\<lparr>heap := (heap s)[d m := t]\<rparr>
      in if sint (Rc t) < 0 then (Inl NegativeRefcount, s1)
         else if Rc t = 0 then
           (case notifyFunc t (info_of t) of
              Returns \<Rightarrow> (Inr (), s1\<lparr>notified := notified s @ [info_of t],
                                     trackingStore := (trackingStore s)(Id_td t := None)\<rparr>)
            | Panics \<Rightarrow> (Inl CallbackPanic, s1\<lparr>notified := notified s @ [info_of t]\<rparr>))
         else (Inr (), s1))"
  unfolding resolve_eq [OF assms] using assms
  by (cases r)
     (simp_all add: trackingMetric_decr_eq counted_def Let_def split: outcome.splits)

lemma counted_fields:
  "notifyFunc (counted r t) = notifyFunc t" "Id_td (counted r t) = Id_td t"
  "Rc (counted r t) = Rc t"
  by (cases r; simp add: counted_def)+

lemma info_of_Rc: "info_of (t\<lparr>Rc := x\<rparr>) = info_of t"
  by (simp add: info_of_def)

lemma word32_minus_one_eq_0: "(x :: 32 word) - 1 = 0 \<longleftrightarrow> x = 1"
  by (metis diff_add_cancel add_0 diff_self)

lemma incr_trackingStore: "trackingStore (snd (incr a s)) = trackingStore s"
  by (simp add: incr_def split: option.splits)

lemma incr_trackingStore_dest:
  "incr a s = (res, s1) \<Longrightarrow> trackingStore s1 = trackingStore s"
  using incr_trackingStore [of a s] by simp

lemma Copy_trackingStore:
  "trackingStore (snd (Copy m s)) = trackingStore s"
  "trackingStore (snd (Metric_Copy x s)) = trackingStore s"
  by (induction m s and x s rule: Copy_Metric_Copy.induct)
     (auto split: prod.splits sum.splits dest: incr_trackingStore_dest)

lemma slice_elems_group_state:
  "slice_elems (group_state g fn s) g
     = map (\<lambda>x. Tracking (trackingMetric x (length (heap s)))) (slice_elems s g)"
  by (simp add: slice_elems_def group_state_def)

lemma WithGroupTracking_Inr:
  assumes "WithGroupTracking g fn s = (Inr (g', tid), s1)"
  shows "g' = g" "tid = lastID s + 1"
    "heap s1 = heap s @ [\<lparr>Id_td = lastID s + 1, Rc = of_nat (len g), AcceptCount = 0,
                          RejectCount = 0, notifyFunc = fn\<rparr>]"
    "mem s1 = mem (group_state g fn s)"
    "notified s1 =
       (if len g = 0
        then notified s @ [\<lparr>id_di = lastID s + 1, accepted = 0, rejected = 0\<rparr>]
        else notified s)"
    "len g = 0 \<Longrightarrow> fn \<lparr>id_di = lastID s + 1, accepted = 0, rejected = 0\<rparr> = Returns"
    "trackingStore s1 = trackingStore s"
  using assms
  by (auto simp add: WithGroupTracking_def newTrackingMetricGroup_eq group_state_def
        split: if_splits outcome.splits)

lemma resolved_fields:
  "Rc (resolved r t) = Rc t - 1"
  "AcceptCount (resolved r t) = AcceptCount t + (if r = ByAccept then 1 else 0)"
  "RejectCount (resolved r t) = RejectCount t + (if r = ByReject then 1 else 0)"
  "Id_td (resolved r t) = Id_td t"
  "notifyFunc (resolved r t) = notifyFunc t"
  by (cases r; simp add: resolved_def counted_def)+

lemma resolved_all_fields:
  "Rc (foldl (\<lambda>t p. resolved (fst p) t) t rs) = Rc t - of_nat (length rs)"
  "AcceptCount (foldl (\<lambda>t p. resolved (fst p) t) t rs) = AcceptCount t + of_nat (accepts rs)"
  "RejectCount (foldl (\<lambda>t p. resolved (fst p) t) t rs) = RejectCount t + of_nat (rejects rs)"
  "Id_td (foldl (\<lambda>t p. resolved (fst p) t) t rs) = Id_td t"
  "notifyFunc (foldl (\<lambda>t p. resolved (fst p) t) t rs) = notifyFunc t"
  by (induction rs arbitrary: t; simp add: resolved_fields accepts_def rejects_def)+

lemma resolve_all_append:
  "resolve_all (rs @ rs') s =
     (case resolve_all rs s of (Inl e, s1) \<Rightarrow> (Inl e, s1) | (Inr _, s1) \<Rightarrow> resolve_all rs' s1)"
  by (induction rs arbitrary: s) (auto split: prod.splits sum.splits)

lemma resolve_all_partial:
  assumes "a < length (heap s)"
    and "\<forall>p \<in> set rs. d (snd p) = a"
    and "Rc (heap s ! a) = of_nat n" and "length rs < n" and "n < 2 ^ 31"
  shows "resolve_all rs s =
     (Inr (), s\<lparr>heap := (heap s)[a := foldl (\<lambda>t p. resolved (fst p) t) (heap s ! a) rs]\<rparr>)"
  using assms
proof (induction rs arbitrary: s n)
  case Nil
  then show ?case by simp
next
  case (Cons p rs)
  obtain r m where p: "p = (r, m)" by (cases p)
  have dm: "d m = a" using Cons.prems(2) p by simp
  obtain k where n: "n = Suc k" using Cons.prems(4) by (cases n) auto
  have k: "length rs < k" "k < 2 ^ 31" "0 < k" using Cons.prems(4,5) n by auto
  have rc: "Rc (heap s ! a) - 1 = of_nat k" using Cons.prems(3) n by simp
  let ?s1 = "s\<lparr>heap := (heap s)[a := resolved r (heap s ! a)]\<rparr>"
  have step: "resolve r m s = (Inr (), ?s1)"
    using Cons.prems(1) k
    by (simp add: resolve_valid dm Let_def rc resolved_def sint_of_nat_small of_nat_32_eq_0)
  have "resolve_all rs ?s1 =
     (Inr (), ?s1\<lparr>heap := (heap ?s1)[a := foldl (\<lambda>t p. resolved (fst p) t) (heap ?s1 ! a) rs]\<rparr>)"
  proof (rule Cons.IH [of ?s1 k])
    show "a < length (heap ?s1)" using Cons.prems(1) by simp
    show "\<forall>p \<in> set rs. d (snd p) = a" using Cons.prems(2) by simp
    show "Rc (heap ?s1 ! a) = of_nat k"
      using Cons.prems(1) rc by (simp add: resolved_def)
    show "length rs < k" by (rule k)
    show "k < 2 ^ 31" by (rule k)
  qed
  then show ?case using step Cons.prems(1) by (simp add: p)
qed

lemma accepts_le: "accepts rs \<le> length rs" and rejects_le: "rejects rs \<le> length rs"
  by (simp_all add: accepts_def rejects_def)

lemma counts_total: "accepts rs + rejects rs + drops rs = length rs"
proof (induction rs)
  case Nil
  show ?case by (simp add: accepts_def rejects_def drops_def)
next
  case (Cons p rs)
  then show ?case
    by (cases "fst p") (simp_all add: accepts_def rejects_def drops_def)
qed

lemma counts_snoc:
  "accepts (rs @ [p]) = accepts rs + (if fst p = ByAccept then 1 else 0)"
  "rejects (rs @ [p]) = rejects rs + (if fst p = ByReject then 1 else 0)"
  by (simp_all add: accepts_def rejects_def)

lemma resolve_all_complete:
  assumes "a < length (heap s)"
    and "\<forall>p \<in> set rs. d (snd p) = a"
    and "Rc (heap s ! a) = of_nat (length rs)" and "rs \<noteq> []" and "length rs < 2 ^ 31"
  shows "fst (resolve_all rs s) =
      (case notifyFunc (heap s ! a)
              \<lparr>id_di = Id_td (heap s ! a),
                accepted = sint (AcceptCount (heap s ! a) + of_nat (accepts rs)),
                rejected = sint (RejectCount (heap s ! a) + of_nat (rejects rs))\<rparr> of
         Returns \<Rightarrow> Inr () | Panics \<Rightarrow> Inl CallbackPanic)"
    and "notified (snd (resolve_all rs s)) =
      notified s @ [\<lparr>id_di = Id_td (heap s ! a),
                accepted = sint (AcceptCount (heap s ! a) + of_nat (accepts rs)),
                rejected = sint (RejectCount (heap s ! a) + of_nat (rejects rs))\<rparr>]"
proof -
  obtain qs r m where rs: "rs = qs @ [(r, m)]"
    using assms(4) by (metis rev_exhaust surj_pair)
  let ?t = "foldl (\<lambda>t p. resolved (fst p) t) (heap s ! a) qs"
  let ?s1 = "s\<lparr>heap := (heap s)[a := ?t]\<rparr>"
  have part: "resolve_all qs s = (Inr (), ?s1)"
    using assms by (intro resolve_all_partial [where n = "length rs"]) (simp_all add: rs)
  have dm: "d m = a" using assms(2) by (simp add: rs)
  have v1: "d m < length (heap ?s1)" using assms(1) dm by simp
  have t1: "heap ?s1 ! d m = ?t" using assms(1) dm by simp
  have rc: "Rc ?t = 1"
    using assms(3) by (simp add: resolved_all_fields rs)
  have last: "resolve r m ?s1 =
      (case notifyFunc (heap s ! a) (info_of (counted r ?t)) of
         Returns \<Rightarrow> (Inr (), ?s1\<lparr>heap := (heap ?s1)[a := (counted r ?t)\<lparr>Rc := 0\<rparr>],
                                notified := notified s @ [info_of (counted r ?t)],
                                trackingStore := (trackingStore s)(Id_td (heap s ! a) := None)\<rparr>)
       | Panics \<Rightarrow> (Inl CallbackPanic, ?s1\<lparr>heap := (heap ?s1)[a := (counted r ?t)\<lparr>Rc := 0\<rparr>],
                                notified := notified s @ [info_of (counted r ?t)]\<rparr>))"
    unfolding resolve_valid [OF v1] t1
    by (simp add: Let_def rc counted_fields info_of_Rc resolved_all_fields(4,5) dm
          split: outcome.splits)
  have info: "info_of (counted r ?t) =
      \<lparr>id_di = Id_td (heap s ! a),
        accepted = sint (AcceptCount (heap s ! a) + of_nat (accepts rs)),
        rejected = sint (RejectCount (heap s ! a) + of_nat (rejects rs))\<rparr>"
    by (cases r)
       (simp_all add: info_of_def counted_def resolved_all_fields rs counts_snoc ac_simps)
  show "fst (resolve_all rs s) =
      (case notifyFunc (heap s ! a)
              \<lparr>id_di = Id_td (heap s ! a),
                accepted = sint (AcceptCount (heap s ! a) + of_nat (accepts rs)),
                rejected = sint (RejectCount (heap s ! a) + of_nat (rejects rs))\<rparr> of
         Returns \<Rightarrow> Inr () | Panics \<Rightarrow> Inl CallbackPanic)"
    unfolding info [symmetric]
    by (simp add: rs resolve_all_append part last split: outcome.splits)
  show "notified (snd (resolve_all rs s)) =
      notified s @ [\<lparr>id_di = Id_td (heap s ! a),
                accepted = sint (AcceptCount (heap s ! a) + of_nat (accepts rs)),
                rejected = sint (RejectCount (heap s ! a) + of_nat (rejects rs))\<rparr>]"
    unfolding info [symmetric]
    by (simp add: rs resolve_all_append part last split: outcome.splits)
qed

lemma resolve_all_stops:
  "fst (resolve r m s) = Inl e \<Longrightarrow> resolve_all ((r, m) # rs) s = resolve r m s"
  by (cases "resolve r m s") auto

lemma sint_2_31: "sint (of_nat (2 ^ 31) :: 32 word) = - (2 ^ 31)"
  by simp

lemma disciplined_0: "disciplined 0 cs = (cs = [])"
proof (cases cs)
  case Nil
  then show ?thesis by simp
next
  case (Cons c cs')
  then show ?thesis by (cases c) simp_all
qed

lemma run_calls_never_negative:
  assumes "d m < length (heap s)" and "Metric m = Plain p"
    and "Rc (heap s ! d m) = of_nat n"
    and "disciplined n cs" and "live_within (2 ^ 31) n cs"
  shows "fst (run_calls cs m s) \<noteq> Inl NegativeRefcount"
  using assms
proof (induction cs arbitrary: s n)
  case Nil
  show ?case by simp
next
  case (Cons c cs)
  show ?case
  proof (cases c)
    case MakeCopy
    let ?s1 = "s\<lparr>heap := (heap s)[d m := (heap s ! d m)\<lparr>Rc := Rc (heap s ! d m) + 1\<rparr>]\<rparr>"
    have step: "run_calls (c # cs) m s = run_calls cs m ?s1"
      by (simp add: MakeCopy Copy_over_plain [OF Cons.prems(1,2)])
    have "fst (run_calls cs m ?s1) \<noteq> Inl NegativeRefcount"
    proof (rule Cons.IH [of ?s1 "Suc n"])
      show "d m < length (heap ?s1)" using Cons.prems(1) by simp
      show "Metric m = Plain p" by (rule Cons.prems(2))
      show "Rc (heap ?s1 ! d m) = of_nat (Suc n)" using Cons.prems(1,3) by simp
      show "disciplined (Suc n) cs" using Cons.prems(4) MakeCopy by simp
      show "live_within (2 ^ 31) (Suc n) cs" using Cons.prems(5) MakeCopy by simp
    qed
    then show ?thesis unfolding step .
  next
    case (Resolve r)
    have n: "0 < n" "n \<le> 2 ^ 31"
      using Cons.prems(4,5) Resolve by simp_all
    then obtain k where k: "n = Suc k" "k < 2 ^ 31" by (cases n) auto
    have rc: "Rc (heap s ! d m) - 1 = of_nat k" using Cons.prems(3) k by simp
    have pos: "\<not> sint (of_nat k :: 32 word) < 0" using k by (simp add: sint_of_nat_small)
    let ?t = "(counted r (heap s ! d m))\<lparr>Rc := of_nat k\<rparr>"
    let ?s1 = "s\<lparr>heap := (heap s)[d m := ?t]\<rparr>"
    show ?thesis
    proof (cases "k = 0")
      case True
      then have cs: "cs = []" using Cons.prems(4) Resolve k by (simp add: disciplined_0)
      show ?thesis
        using pos True
        by (simp add: Resolve cs resolve_valid [OF Cons.prems(1)] rc Let_def
              split: outcome.splits prod.splits sum.splits)
    next
      case False
      then have nz: "(of_nat k :: 32 word) \<noteq> 0" using k by (simp add: of_nat_32_eq_0)
      have step: "run_calls (c # cs) m s = run_calls cs m ?s1"
        using pos nz by (simp add: Resolve resolve_valid [OF Cons.prems(1)] rc Let_def)
      have "fst (run_calls cs m ?s1) \<noteq> Inl NegativeRefcount"
      proof (rule Cons.IH [of ?s1 k])
        show "d m < length (heap ?s1)" using Cons.prems(1) by simp
        show "Metric m = Plain p" by (rule Cons.prems(2))
        show "Rc (heap ?s1 ! d m) = of_nat k" using Cons.prems(1) by simp
        show "disciplined k cs" using Cons.prems(4) Resolve k by simp
        show "live_within (2 ^ 31) k cs" using Cons.prems(5) Resolve k by simp
      qed
      then show ?thesis unfolding step .
    qed
  qed
qed

lemma run_calls_copies:
  assumes "d m < length (heap s)" and "Metric m = Plain p"
  shows "run_calls (replicate k MakeCopy @ cs) m s =
     run_calls cs m
       (s\<lparr>heap := (heap s)[d m := (heap s ! d m)\<lparr>Rc := Rc (heap s ! d m) + of_nat k\<rparr>]\<rparr>)"
  using assms
proof (induction k arbitrary: s)
  case 0
  then show ?case by simp
next
  case (Suc k)
  let ?s1 = "s\<lparr>heap := (heap s)[d m := (heap s ! d m)\<lparr>Rc := Rc (heap s ! d m) + 1\<rparr>]\<rparr>"
  have "run_calls (replicate (Suc k) MakeCopy @ cs) m s = run_calls (replicate k MakeCopy @ cs) m ?s1"
    by (simp add: Copy_over_plain [OF Suc.prems])
  also have "\<dots> = run_calls cs m
       (?s1\<lparr>heap := (heap ?s1)[d m := (heap ?s1 ! d m)\<lparr>Rc := Rc (heap ?s1 ! d m) + of_nat k\<rparr>]\<rparr>)"
    using Suc.prems by (intro Suc.IH) simp_all
  finally show ?case using Suc.prems by (simp add: add.assoc)
qed

lemma disciplined_copies:
  "0 < n \<Longrightarrow> disciplined n (replicate k MakeCopy @ cs) = disciplined (n + k) cs"
  by (induction k arbitrary: n) simp_all

lemma incr_refs_simps:
  "incr_refs [] h = h" "incr_refs (a # as) h = incr_refs as (incr_at a h)"
  by (simp_all add: incr_refs_def)

lemma length_incr_at: "length (incr_at a h) = length h"
  by (simp add: incr_at_def)

lemma length_incr_refs: "length (incr_refs as h) = length h"
  by (induction as arbitrary: h) (simp_all add: incr_refs_simps length_incr_at)

lemma incr_valid:
  "a < length (heap s) \<Longrightarrow> incr a s = (Inr (), s\<lparr>heap := incr_at a (heap s)\<rparr>)"
  by (simp add: incr_def deref_def incr_at_def)

lemma incr_invalid: "\<not> a < length (heap s) \<Longrightarrow> incr a s = (Inl NilPointer, s)"
  by (simp add: incr_def deref_def)

lemma Copy_eq:
  "\<forall>a \<in> set (refs (Tracking m)). a < length (heap s) \<Longrightarrow>
     Copy m s = (Inr (Tracking m), s\<lparr>heap := incr_refs (refs (Tracking m)) (heap s)\<rparr>)"
  "\<forall>a \<in> set (refs x). a < length (heap s) \<Longrightarrow>
     Metric_Copy x s = (Inr x, s\<lparr>heap := incr_refs (refs x) (heap s)\<rparr>)"
proof (induction m s and x s rule: Copy_Metric_Copy.induct)
  case (1 x a s)
  let ?s1 = "s\<lparr>heap := incr_at a (heap s)\<rparr>"
  have a: "a < length (heap s)" using 1(2) by simp
  have i: "incr a s = (Inr (), ?s1)" by (rule incr_valid [OF a])
  have "\<forall>b \<in> set (refs x). b < length (heap ?s1)"
    using 1(2) by (simp add: length_incr_at)
  then have "Metric_Copy x ?s1 = (Inr x, ?s1\<lparr>heap := incr_refs (refs x) (heap ?s1)\<rparr>)"
    by (rule 1(1) [OF i [symmetric] refl])
  then show ?case by (simp add: i incr_refs_simps)
next
  case (2 p s)
  show ?case by (simp add: Copy_plain_def incr_refs_simps)
next
  case (3 m s)
  then show ?case by simp
qed

lemma Copy_returns_valid:
  "fst (Copy m s) = Inr y \<Longrightarrow> \<forall>a \<in> set (refs (Tracking m)). a < length (heap s)"
  "fst (Metric_Copy x s) = Inr y \<Longrightarrow> \<forall>a \<in> set (refs x). a < length (heap s)"
proof (induction m s and x s arbitrary: y and y rule: Copy_Metric_Copy.induct)
  case (1 x a s)
  have a: "a < length (heap s)"
    using 1(2) by (cases "a < length (heap s)") (simp_all add: incr_invalid)
  let ?s1 = "s\<lparr>heap := incr_at a (heap s)\<rparr>"
  have i: "incr a s = (Inr (), ?s1)" by (rule incr_valid [OF a])
  obtain c where "fst (Metric_Copy x ?s1) = Inr c"
    using 1(2) by (simp add: i split: prod.splits sum.splits)
  then have "\<forall>b \<in> set (refs x). b < length (heap ?s1)"
    by (rule 1(1) [OF i [symmetric] refl])
  then show ?case using a by (simp add: length_incr_at)
next
  case (2 p s)
  show ?case by simp
next
  case (3 m s)
  then show ?case by simp
qed

lemma incr_at_fields:
  "b < length h \<Longrightarrow> Rc (incr_at a h ! b) = Rc (h ! b) + (if a = b then 1 else 0)"
  "b < length h \<Longrightarrow> Id_td (incr_at a h ! b) = Id_td (h ! b)"
  "b < length h \<Longrightarrow> AcceptCount (incr_at a h ! b) = AcceptCount (h ! b)"
  "b < length h \<Longrightarrow> RejectCount (incr_at a h ! b) = RejectCount (h ! b)"
  "b < length h \<Longrightarrow> notifyFunc (incr_at a h ! b) = notifyFunc (h ! b)"
  by (cases "a = b"; simp add: incr_at_def)+

lemma incr_refs_fields:
  "b < length h \<Longrightarrow> Rc (incr_refs as h ! b) = Rc (h ! b) + of_nat (count_list as b)"
  "b < length h \<Longrightarrow> Id_td (incr_refs as h ! b) = Id_td (h ! b)"
  "b < length h \<Longrightarrow> AcceptCount (incr_refs as h ! b) = AcceptCount (h ! b)"
  "b < length h \<Longrightarrow> RejectCount (incr_refs as h ! b) = RejectCount (h ! b)"
  "b < length h \<Longrightarrow> notifyFunc (incr_refs as h ! b) = notifyFunc (h ! b)"
  by (induction as arbitrary: h;
      simp add: incr_refs_simps incr_at_fields length_incr_at ac_simps)+


lemma WithTracking_fresh:
  assumes "WithTracking x fn s = ((Tracking m, tid), s1)"
    and "\<forall>a \<in> set (refs x). a < length (heap s)"
  shows "d m \<notin> set (refs (Metric m))"
  using assms by (auto simp add: WithTracking_def newTrackingMetric_eq)

section \<open>The claims\<close>

subsection \<open>An empty group\<close>

text \<open>
  C4. Creating a tracked group over an empty slice calls the notify function at once,
  inside \<open>WithGroupTracking\<close>: the trace of the state it leaves has one more call, with
  the fresh id, accepted 0 and rejected 0, which \<open>Delivered\<close> reports as delivered. The
  function returns the slice and the id when the notify function returns, and panics with
  it otherwise.
\<close>

theorem empty_group_notifies_at_once:
  "notified (snd (WithGroupTracking \<lparr>ptr = p, len = 0\<rparr> fn s))
     = notified s @ [\<lparr>id_di = lastID s + 1, accepted = 0, rejected = 0\<rparr>]
   \<and> Delivered \<lparr>id_di = lastID s + 1, accepted = 0, rejected = 0\<rparr>
   \<and> fst (WithGroupTracking \<lparr>ptr = p, len = 0\<rparr> fn s)
     = (case fn \<lparr>id_di = lastID s + 1, accepted = 0, rejected = 0\<rparr> of
          Returns \<Rightarrow> Inr (\<lparr>ptr = p, len = 0\<rparr>, lastID s + 1)
        | Panics \<Rightarrow> Inl CallbackPanic)"
  by (simp add: WithGroupTracking_def newTrackingMetricGroup_eq Delivered_def)

subsection \<open>A single tracked metric\<close>

text \<open>
  C5. For a metric tracked alone (reference count 1), \<open>Accept\<close> calls the notify function
  once with accepted 1 and rejected 0, \<open>Reject\<close> once with accepted 0 and rejected 1,
  \<open>Drop\<close> once with accepted 0 and rejected 0; none of them reaches the negative count
  check; and \<open>Delivered\<close> is true exactly when the rejected count is 0, whatever the
  accepted count.
\<close>

theorem single_metric_resolution:
  assumes "WithTracking m fn s = ((Tracking tm, tid), s1)"
  shows "notified (snd (Accept tm s1))
           = notified s @ [\<lparr>id_di = tid, accepted = 1, rejected = 0\<rparr>]
       \<and> notified (snd (Reject tm s1))
           = notified s @ [\<lparr>id_di = tid, accepted = 0, rejected = 1\<rparr>]
       \<and> notified (snd (Drop tm s1))
           = notified s @ [\<lparr>id_di = tid, accepted = 0, rejected = 0\<rparr>]
       \<and> fst (Accept tm s1)
           = (case fn \<lparr>id_di = tid, accepted = 1, rejected = 0\<rparr> of
                Returns \<Rightarrow> Inr () | Panics \<Rightarrow> Inl CallbackPanic)
       \<and> fst (Reject tm s1)
           = (case fn \<lparr>id_di = tid, accepted = 0, rejected = 1\<rparr> of
                Returns \<Rightarrow> Inr () | Panics \<Rightarrow> Inl CallbackPanic)
       \<and> fst (Drop tm s1)
           = (case fn \<lparr>id_di = tid, accepted = 0, rejected = 0\<rparr> of
                Returns \<Rightarrow> Inr () | Panics \<Rightarrow> Inl CallbackPanic)
       \<and> Delivered \<lparr>id_di = tid, accepted = 1, rejected = 0\<rparr>
       \<and> \<not> Delivered \<lparr>id_di = tid, accepted = 0, rejected = 1\<rparr>
       \<and> Delivered \<lparr>id_di = tid, accepted = 0, rejected = 0\<rparr>
       \<and> Delivered i = (rejected i = 0)"
proof -
  from assms have tm: "tm = trackingMetric m (length (heap s))"
    and tid: "tid = lastID s + 1"
    and s1: "s1 = s\<lparr>lastID := lastID s + 1,
        heap := heap s @ [\<lparr>Id_td = lastID s + 1, Rc = 1, AcceptCount = 0, RejectCount = 0,
                           notifyFunc = fn\<rparr>]\<rparr>"
    by (auto simp add: WithTracking_def newTrackingMetric_eq)
  have v: "d tm < length (heap s1)" by (simp add: tm s1)
  have A: "notified (snd (Accept tm s1))
             = notified s @ [\<lparr>id_di = tid, accepted = 1, rejected = 0\<rparr>]"
     "fst (Accept tm s1) = (case fn \<lparr>id_di = tid, accepted = 1, rejected = 0\<rparr> of
                              Returns \<Rightarrow> Inr () | Panics \<Rightarrow> Inl CallbackPanic)"
    unfolding Accept_eq [OF v]
    by (simp_all add: trackingMetric_decr_eq tm s1 tid info_of_def Let_def
          split: outcome.splits)
  have R: "notified (snd (Reject tm s1))
             = notified s @ [\<lparr>id_di = tid, accepted = 0, rejected = 1\<rparr>]"
     "fst (Reject tm s1) = (case fn \<lparr>id_di = tid, accepted = 0, rejected = 1\<rparr> of
                              Returns \<Rightarrow> Inr () | Panics \<Rightarrow> Inl CallbackPanic)"
    unfolding Reject_eq [OF v]
    by (simp_all add: trackingMetric_decr_eq tm s1 tid info_of_def Let_def
          split: outcome.splits)
  have D: "notified (snd (Drop tm s1))
             = notified s @ [\<lparr>id_di = tid, accepted = 0, rejected = 0\<rparr>]"
     "fst (Drop tm s1) = (case fn \<lparr>id_di = tid, accepted = 0, rejected = 0\<rparr> of
                            Returns \<Rightarrow> Inr () | Panics \<Rightarrow> Inl CallbackPanic)"
    unfolding Drop_def
    by (simp_all add: trackingMetric_decr_eq tm s1 tid info_of_def Let_def
          split: outcome.splits)
  show ?thesis using A R D by (simp add: Delivered_def)
qed

theorem single_metric_resolution_witness:
  "notified (snd (Accept (trackingMetric (Plain ()) 0)
       (snd (WithTracking (Plain ()) fn_returns (init_state (Plain ()))))))
     = [\<lparr>id_di = 1, accepted = 1, rejected = 0\<rparr>]
   \<and> notified (snd (Reject (trackingMetric (Plain ()) 0)
       (snd (WithTracking (Plain ()) fn_returns (init_state (Plain ()))))))
     = [\<lparr>id_di = 1, accepted = 0, rejected = 1\<rparr>]"
proof -
  have h: "WithTracking (Plain ()) fn_returns (init_state (Plain ())) =
     ((Tracking (trackingMetric (Plain ()) 0), 1),
      snd (WithTracking (Plain ()) fn_returns (init_state (Plain ()))))"
    by (simp add: WithTracking_def newTrackingMetric_eq init_state_def)
  show ?thesis
    using single_metric_resolution [OF h] by (simp add: init_state_def)
qed

subsection \<open>Identifiers\<close>

text \<open>
  C8. The first id a fresh process issues is 1, every call returns the id of the call
  before it plus one, and as long as fewer than \<open>2 ^ 64\<close> ids have been issued (before the
  64-bit counter wraps, which the code does not handle) the ids are 1, 2, ..., n: none is
  0, none is issued twice, and they increase strictly.
\<close>

theorem tracking_ids_count_from_one:
  "fst (newTrackingID (init_state m0)) = 1 \<and>
   fst (newTrackingID (snd (newTrackingID s))) = fst (newTrackingID s) + 1 \<and>
   (n < 2 ^ 64 \<longrightarrow>
      map unat (fst (issue n (init_state m0))) = [1..<Suc n] \<and>
      0 \<notin> set (fst (issue n (init_state m0))) \<and>
      distinct (fst (issue n (init_state m0))) \<and>
      sorted_wrt (<) (fst (issue n (init_state m0))))"
proof -
  note u = unat_issue
  have z: "0 \<notin> set (fst (issue n (init_state m0)))" if "n < 2 ^ 64"
  proof
    assume "0 \<in> set (fst (issue n (init_state m0)))"
    then have "unat (0 :: 64 word) \<in> set (map unat (fst (issue n (init_state m0))))"
      by (metis image_eqI set_map)
    then show False using u [OF that, of m0] by auto
  qed
  have d: "distinct (fst (issue n (init_state m0)))" if "n < 2 ^ 64"
    using u [OF that, of m0] by (metis distinct_map distinct_upt)
  have s: "sorted_wrt (<) (fst (issue n (init_state m0)))" if "n < 2 ^ 64"
  proof -
    have "sorted_wrt (<) (map unat (fst (issue n (init_state m0))))"
      unfolding u [OF that] by (rule sorted_wrt_upt)
    then show ?thesis by (simp add: sorted_wrt_map word_less_nat_alt [abs_def])
  qed
  show ?thesis using u [of n m0] z d s
    by (simp add: newTrackingID_def init_state_def)
qed

theorem tracking_ids_count_from_one_witness:
  "(3::nat) < 2 ^ 64 \<and> fst (issue 3 (init_state (Plain ()))) = [1, 2, 3]"
proof -
  have "map unat (fst (issue 3 (init_state (Plain ())))) = [1..<Suc 3]"
    using tracking_ids_count_from_one [of "Plain ()" "init_state (Plain ())" 3] by simp
  moreover have "fst (issue 3 (init_state (Plain ()))) = [1, 2, 3]"
    by (simp add: numeral_3_eq_3 newTrackingID_def init_state_def)
  ultimately show ?thesis by simp
qed

subsection \<open>Use after completion\<close>

text \<open>
  C10. Nothing stops a second notification for one id. Track a single metric with a
  notify function that returns and accept it: the notify function is called with accepted
  1. Then copy the stale instance and accept the copy (as a value, the instance again): no
  call panics, and the notify function is called a second time for the same id, with
  accepted 2.
\<close>

theorem second_notification_after_completion:
  assumes "WithTracking (Plain p) fn_returns s = ((Tracking tm, tid), s1)"
  shows "fst (Accept tm s1) = Inr ()
     \<and> notified (snd (Accept tm s1))
         = notified s @ [\<lparr>id_di = tid, accepted = 1, rejected = 0\<rparr>]
     \<and> fst (Copy tm (snd (Accept tm s1))) = Inr (Tracking tm)
     \<and> fst (Accept tm (snd (Copy tm (snd (Accept tm s1))))) = Inr ()
     \<and> notified (snd (Accept tm (snd (Copy tm (snd (Accept tm s1))))))
         = notified s @ [\<lparr>id_di = tid, accepted = 1, rejected = 0\<rparr>,
                         \<lparr>id_di = tid, accepted = 2, rejected = 0\<rparr>]"
proof -
  from assms have tm: "tm = trackingMetric (Plain p) (length (heap s))"
    and tid: "tid = lastID s + 1"
    and s1: "s1 = s\<lparr>lastID := lastID s + 1,
        heap := heap s @ [\<lparr>Id_td = lastID s + 1, Rc = 1, AcceptCount = 0, RejectCount = 0,
                           notifyFunc = fn_returns\<rparr>]\<rparr>"
    by (auto simp add: WithTracking_def newTrackingMetric_eq)
  have v: "d tm < length (heap s1)" by (simp add: tm s1)
  define s2 where "s2 = snd (Accept tm s1)"
  have A: "Accept tm s1 = (Inr (), s2)"
    and s2: "s2 = s1\<lparr>heap := heap s @ [\<lparr>Id_td = tid, Rc = 0, AcceptCount = 1,
                                          RejectCount = 0, notifyFunc = fn_returns\<rparr>],
                    notified := notified s @ [\<lparr>id_di = tid, accepted = 1, rejected = 0\<rparr>],
                    trackingStore := (trackingStore s)(tid := None)\<rparr>"
    unfolding s2_def Accept_eq [OF v]
    by (simp_all add: trackingMetric_decr_eq tm s1 tid info_of_def Let_def fn_returns_def)
  have v2: "d tm < length (heap s2)" by (simp add: tm s2 s1)
  define s3 where "s3 = snd (Copy tm s2)"
  have C: "Copy tm s2 = (Inr (Tracking tm), s3)"
    and s3: "s3 = s2\<lparr>heap := heap s @ [\<lparr>Id_td = tid, Rc = 1, AcceptCount = 1,
                                          RejectCount = 0, notifyFunc = fn_returns\<rparr>]\<rparr>"
    unfolding s3_def using Copy_over_plain [OF v2, of p]
    by (simp_all add: tm s2 s1)
  have v3: "d tm < length (heap s3)" by (simp add: tm s3 s2 s1)
  have B: "fst (Accept tm s3) = Inr ()"
     "notified (snd (Accept tm s3))
        = notified s @ [\<lparr>id_di = tid, accepted = 1, rejected = 0\<rparr>,
                        \<lparr>id_di = tid, accepted = 2, rejected = 0\<rparr>]"
    unfolding Accept_eq [OF v3]
    by (simp_all add: trackingMetric_decr_eq tm s3 s2 s1 tid info_of_def Let_def
          fn_returns_def)
  show ?thesis using A B C by (simp add: s2)
qed

theorem second_notification_after_completion_witness:
  "notified (snd (Accept (trackingMetric (Plain ()) 0)
      (snd (Copy (trackingMetric (Plain ()) 0)
        (snd (Accept (trackingMetric (Plain ()) 0)
          (snd (WithTracking (Plain ()) fn_returns (init_state (Plain ()))))))))))
    = [\<lparr>id_di = 1, accepted = 1, rejected = 0\<rparr>, \<lparr>id_di = 1, accepted = 2, rejected = 0\<rparr>]"
proof -
  have h: "WithTracking (Plain ()) fn_returns (init_state (Plain ())) =
     ((Tracking (trackingMetric (Plain ()) 0), 1),
      snd (WithTracking (Plain ()) fn_returns (init_state (Plain ()))))"
    by (simp add: WithTracking_def newTrackingMetric_eq init_state_def)
  show ?thesis
    using second_notification_after_completion [OF h] by (simp add: init_state_def)
qed

subsection \<open>Copies\<close>

text \<open>
  C6, as the code has it. When \<open>Copy\<close> on a tracked metric returns, it has counted one
  more reference on the shared record and then copied the embedded metric through that
  metric's own \<open>Copy\<close>: the new tracked instance wraps what that call returned, which as
  a value is the embedded metric, and points to the same record, so it has the same
  \<open>TrackingID\<close>. The state changes in reference counts only: the count of a record
  grows by the number of times the record occurs among the records of the instance, in
  the \<open>int32\<close> arithmetic of the counter. This is exactly one for the shared record (no
  wrapper the code builds embeds a metric tracked by its own record, lemma
  \<open>WithTracking_fresh\<close>), and one for each record of an embedded tracked metric; over a
  metric of another implementation the shared record's count is all that changes. The
  ids, the accept and reject counters and the notify functions of all records, the
  registry, the id counter, the slice memory and the trace of notifications are unchanged,
  and the instance is a value that nothing changes. When the metric is the only live
  instance of its record and is yet unresolved, accepting the original and rejecting the
  copy, or rejecting the original and accepting the copy, calls the notify function once,
  at the second resolution, with accepted 1 and rejected 1, which is not delivered.
\<close>

theorem copy_counts_one_more_reference:
  assumes "Copy m s = (Inr (Tracking c), s2)"
  shows "d c = d m \<and> Metric c = Metric m
     \<and> fst (Metric_Copy (Metric m) (snd (incr (d m) s))) = Inr (Metric c)
     \<and> s2 = s\<lparr>heap := incr_refs (d m # refs (Metric m)) (heap s)\<rparr>
     \<and> length (heap s2) = length (heap s)
     \<and> (\<forall>a < length (heap s).
           Rc (heap s2 ! a) = Rc (heap s ! a) + of_nat (count_list (d m # refs (Metric m)) a)
         \<and> Id_td (heap s2 ! a) = Id_td (heap s ! a)
         \<and> AcceptCount (heap s2 ! a) = AcceptCount (heap s ! a)
         \<and> RejectCount (heap s2 ! a) = RejectCount (heap s ! a)
         \<and> notifyFunc (heap s2 ! a) = notifyFunc (heap s ! a))
     \<and> (d m \<notin> set (refs (Metric m)) \<longrightarrow> Rc (heap s2 ! d m) = Rc (heap s ! d m) + 1)
     \<and> (refs (Metric m) = [] \<longrightarrow>
           s2 = s\<lparr>heap := (heap s)[d m := (heap s ! d m)\<lparr>Rc := Rc (heap s ! d m) + 1\<rparr>]\<rparr>)
     \<and> TrackingID c s2 = TrackingID m s
     \<and> (d m \<notin> set (refs (Metric m)) \<and> Rc (heap s ! d m) = 1
          \<and> AcceptCount (heap s ! d m) = 0 \<and> RejectCount (heap s ! d m) = 0 \<longrightarrow>
        notified (snd (Accept m s2)) = notified s
        \<and> notified (snd (Reject c (snd (Accept m s2))))
            = notified s @ [\<lparr>id_di = Id_td (heap s ! d m), accepted = 1, rejected = 1\<rparr>]
        \<and> notified (snd (Reject m s2)) = notified s
        \<and> notified (snd (Accept c (snd (Reject m s2))))
            = notified s @ [\<lparr>id_di = Id_td (heap s ! d m), accepted = 1, rejected = 1\<rparr>]
        \<and> \<not> Delivered \<lparr>id_di = Id_td (heap s ! d m), accepted = 1, rejected = 1\<rparr>)"
proof -
  have rm: "refs (Tracking m) = d m # refs (Metric m)" by (cases m) simp
  have valid: "\<forall>a \<in> set (refs (Tracking m)). a < length (heap s)"
    using Copy_returns_valid(1) [of m s "Tracking c"] assms by simp
  then have v: "d m < length (heap s)" and vs: "\<forall>a \<in> set (refs (Metric m)). a < length (heap s)"
    by (simp_all add: rm)
  from Copy_eq(1) [OF valid] assms have c: "c = m"
    and s2: "s2 = s\<lparr>heap := incr_refs (d m # refs (Metric m)) (heap s)\<rparr>"
    by (auto simp add: rm)
  have i: "incr (d m) s = (Inr (), s\<lparr>heap := incr_at (d m) (heap s)\<rparr>)"
    by (rule incr_valid [OF v])
  have mc: "fst (Metric_Copy (Metric m) (snd (incr (d m) s))) = Inr (Metric c)"
    using vs by (simp add: i c Copy_eq(2) length_incr_at)
  have len: "length (heap s2) = length (heap s)" by (simp add: s2 length_incr_refs)
  have fields: "\<forall>a < length (heap s).
           Rc (heap s2 ! a) = Rc (heap s ! a) + of_nat (count_list (d m # refs (Metric m)) a)
         \<and> Id_td (heap s2 ! a) = Id_td (heap s ! a)
         \<and> AcceptCount (heap s2 ! a) = AcceptCount (heap s ! a)
         \<and> RejectCount (heap s2 ! a) = RejectCount (heap s ! a)
         \<and> notifyFunc (heap s2 ! a) = notifyFunc (heap s ! a)"
    unfolding s2 by (simp add: incr_refs_fields)
  have one: "Rc (heap s2 ! d m) = Rc (heap s ! d m) + 1" if "d m \<notin> set (refs (Metric m))"
    using fields v that by simp
  have plain: "s2 = s\<lparr>heap := (heap s)[d m := (heap s ! d m)\<lparr>Rc := Rc (heap s ! d m) + 1\<rparr>]\<rparr>"
    if "refs (Metric m) = []"
    using that by (simp add: s2 incr_refs_simps incr_at_def)
  have tid: "TrackingID c s2 = TrackingID m s"
    using fields v len by (simp add: c TrackingID_def deref_def)
  have v2: "d m < length (heap s2)" using v len by simp
  have n2: "notified s2 = notified s" by (simp add: s2)
  have scen: "notified (snd (Accept m s2)) = notified s
        \<and> notified (snd (Reject c (snd (Accept m s2))))
            = notified s @ [\<lparr>id_di = Id_td (heap s ! d m), accepted = 1, rejected = 1\<rparr>]
        \<and> notified (snd (Reject m s2)) = notified s
        \<and> notified (snd (Accept c (snd (Reject m s2))))
            = notified s @ [\<lparr>id_di = Id_td (heap s ! d m), accepted = 1, rejected = 1\<rparr>]"
    if h: "d m \<notin> set (refs (Metric m))" "Rc (heap s ! d m) = 1"
      "AcceptCount (heap s ! d m) = 0" "RejectCount (heap s ! d m) = 0"
  proof -
    have f2: "Rc (heap s2 ! d m) = 2" "AcceptCount (heap s2 ! d m) = 0"
      "RejectCount (heap s2 ! d m) = 0" "Id_td (heap s2 ! d m) = Id_td (heap s ! d m)"
      using one [OF h(1)] fields v h by simp_all
    have A: "Accept m s2 =
        (Inr (), s2\<lparr>heap := (heap s2)[d m := (heap s2 ! d m)\<lparr>AcceptCount := 1, Rc := 1\<rparr>]\<rparr>)"
      unfolding Accept_eq [OF v2] using v2 f2
      by (simp add: trackingMetric_decr_eq Let_def)
    have R: "Reject m s2 =
        (Inr (), s2\<lparr>heap := (heap s2)[d m := (heap s2 ! d m)\<lparr>RejectCount := 1, Rc := 1\<rparr>]\<rparr>)"
      unfolding Reject_eq [OF v2] using v2 f2
      by (simp add: trackingMetric_decr_eq Let_def)
    have "notified (snd (Reject m (snd (Accept m s2))))
            = notified s @ [\<lparr>id_di = Id_td (heap s ! d m), accepted = 1, rejected = 1\<rparr>]"
      unfolding A using v2 f2 n2
      by (simp add: Reject_eq trackingMetric_decr_eq Let_def info_of_def split: outcome.splits)
    moreover have "notified (snd (Accept m (snd (Reject m s2))))
            = notified s @ [\<lparr>id_di = Id_td (heap s ! d m), accepted = 1, rejected = 1\<rparr>]"
      unfolding R using v2 f2 n2
      by (simp add: Accept_eq trackingMetric_decr_eq Let_def info_of_def split: outcome.splits)
    ultimately show ?thesis by (simp add: A R c n2)
  qed
  show ?thesis
    using c s2 mc len fields one plain tid scen by (simp add: Delivered_def)
qed

theorem copy_counts_one_more_reference_witness:
  "Copy (trackingMetric (Tracking (trackingMetric (Plain ()) 0)) 1)
      (snd (WithTracking (Tracking (trackingMetric (Plain ()) 0)) fn_returns
         (snd (WithTracking (Plain ()) fn_returns (init_state (Plain ()))))))
     = (Inr (Tracking (trackingMetric (Tracking (trackingMetric (Plain ()) 0)) 1)),
        snd (Copy (trackingMetric (Tracking (trackingMetric (Plain ()) 0)) 1)
          (snd (WithTracking (Tracking (trackingMetric (Plain ()) 0)) fn_returns
             (snd (WithTracking (Plain ()) fn_returns (init_state (Plain ()))))))))
   \<and> RefCount 1 (snd (Copy (trackingMetric (Tracking (trackingMetric (Plain ()) 0)) 1)
          (snd (WithTracking (Tracking (trackingMetric (Plain ()) 0)) fn_returns
             (snd (WithTracking (Plain ()) fn_returns (init_state (Plain ())))))))) = Inr 2
   \<and> notified (snd (Reject (trackingMetric (Tracking (trackingMetric (Plain ()) 0)) 1)
        (snd (Accept (trackingMetric (Tracking (trackingMetric (Plain ()) 0)) 1)
          (snd (Copy (trackingMetric (Tracking (trackingMetric (Plain ()) 0)) 1)
            (snd (WithTracking (Tracking (trackingMetric (Plain ()) 0)) fn_returns
               (snd (WithTracking (Plain ()) fn_returns (init_state (Plain ()))))))))))))
     = [\<lparr>id_di = 2, accepted = 1, rejected = 1\<rparr>]"
proof -
  let ?m = "trackingMetric (Tracking (trackingMetric (Plain ()) 0)) 1
              :: unit Metric trackingMetric"
  let ?s = "snd (WithTracking (Tracking (trackingMetric (Plain ()) 0)) fn_returns
             (snd (WithTracking (Plain ()) fn_returns (init_state (Plain ())))))"
  have s: "?s = \<lparr>lastID = 2,
                 heap = [\<lparr>Id_td = 1, Rc = 1, AcceptCount = 0, RejectCount = 0,
                           notifyFunc = fn_returns\<rparr>,
                         \<lparr>Id_td = 2, Rc = 1, AcceptCount = 0, RejectCount = 0,
                           notifyFunc = fn_returns\<rparr>],
                 mem = (\<lambda>_. Plain ()), trackingStore = Map.empty, notified = []\<rparr>"
    by (simp add: WithTracking_def newTrackingMetric_eq init_state_def)
  have v: "\<forall>a \<in> set (refs (Tracking ?m)). a < length (heap ?s)"
    unfolding s by simp
  have h: "Copy ?m ?s = (Inr (Tracking ?m), snd (Copy ?m ?s))"
    unfolding Copy_eq(1) [OF v] by simp
  have r: "RefCount 1 (snd (Copy ?m ?s)) = Inr 2"
    unfolding Copy_eq(1) [OF v] unfolding s
    by (simp add: RefCount_def deref_def incr_refs_simps incr_at_def)
  show ?thesis
    using copy_counts_one_more_reference [OF h] h r
    unfolding s by simp
qed

text \<open>
  The claim as the specification states it, that \<open>Copy\<close> changes nothing but the count
  of the shared record, fails for a tracked metric that embeds a tracked metric: track a
  metric (id 1, record 0), track the result again (id 2, record 1) and copy the outer
  instance. The count of record 1 goes from 1 to 2, and so does the count of record 0,
  the record of the embedded metric.
\<close>

theorem copy_of_nested_metric_counts_twice:
  "fst (WithTracking (Plain ()) fn_returns (init_state (Plain ())))
     = (Tracking (trackingMetric (Plain ()) 0), 1)
   \<and> fst (WithTracking (Tracking (trackingMetric (Plain ()) 0)) fn_returns
         (snd (WithTracking (Plain ()) fn_returns (init_state (Plain ())))))
     = (Tracking (trackingMetric (Tracking (trackingMetric (Plain ()) 0)) 1), 2)
   \<and> RefCount 0 (snd (WithTracking (Tracking (trackingMetric (Plain ()) 0)) fn_returns
         (snd (WithTracking (Plain ()) fn_returns (init_state (Plain ())))))) = Inr 1
   \<and> fst (Copy (trackingMetric (Tracking (trackingMetric (Plain ()) 0)) 1)
         (snd (WithTracking (Tracking (trackingMetric (Plain ()) 0)) fn_returns
           (snd (WithTracking (Plain ()) fn_returns (init_state (Plain ())))))))
     = Inr (Tracking (trackingMetric (Tracking (trackingMetric (Plain ()) 0)) 1))
   \<and> RefCount 1 (snd (Copy (trackingMetric (Tracking (trackingMetric (Plain ()) 0)) 1)
         (snd (WithTracking (Tracking (trackingMetric (Plain ()) 0)) fn_returns
           (snd (WithTracking (Plain ()) fn_returns (init_state (Plain ())))))))) = Inr 2
   \<and> RefCount 0 (snd (Copy (trackingMetric (Tracking (trackingMetric (Plain ()) 0)) 1)
         (snd (WithTracking (Tracking (trackingMetric (Plain ()) 0)) fn_returns
           (snd (WithTracking (Plain ()) fn_returns (init_state (Plain ())))))))) = Inr 2"
  by (simp add: WithTracking_def newTrackingMetric_eq init_state_def RefCount_def deref_def
        incr_def Copy_plain_def)


subsection \<open>A notify function that panics\<close>

text \<open>
  C3, as the code has it. When the resolution that takes the reference count to zero
  calls a notify function that panics, the panic leaves the resolution as it is: the
  notify function has been called once and is not called again, and the registry is left
  unchanged, so that the entry for the id, if there is one, is not removed. (In \<open>decr\<close>
  the deletion stands after the call of \<open>notify\<close> and nothing recovers the panic.)
\<close>

theorem notify_panic_keeps_registry:
  assumes "d m < length (heap s)"
    and "Rc (heap s ! d m) = 1"
    and "\<And>i. notifyFunc (heap s ! d m) i = Panics"
  shows "fst (resolve r m s) = Inl CallbackPanic
     \<and> trackingStore (snd (resolve r m s)) = trackingStore s
     \<and> notified (snd (resolve r m s))
         = notified s @ [info_of (counted r (heap s ! d m))]"
  unfolding resolve_valid [OF assms(1)] using assms
  by (simp add: Let_def info_of_Rc counted_fields)

theorem notify_panic_keeps_registry_witness:
  "fst (resolve ByAccept (trackingMetric (Plain ()) 0)
      (register 1 0 (snd (WithTracking (Plain ()) fn_panics (init_state (Plain ()))))))
     = Inl CallbackPanic
   \<and> notified (snd (resolve ByAccept (trackingMetric (Plain ()) 0)
      (register 1 0 (snd (WithTracking (Plain ()) fn_panics (init_state (Plain ())))))))
     = [\<lparr>id_di = 1, accepted = 1, rejected = 0\<rparr>]"
  using notify_panic_keeps_registry [of "trackingMetric (Plain ()) 0"
      "register 1 0 (snd (WithTracking (Plain ()) fn_panics (init_state (Plain ()))))" ByAccept]
  by (simp add: WithTracking_def newTrackingMetric_eq init_state_def register_def
        fn_panics_def counted_def info_of_def)

text \<open>
  The claim as the specification states it, that the entry is still removed, fails: track
  a metric with a notify function that panics, let the registry hold an entry for its id 1,
  and accept the metric. The call panics and the entry is still there.
\<close>

theorem notify_panic_entry_not_removed:
  "fst (Accept (trackingMetric (Plain ()) 0)
      (register 1 0 (snd (WithTracking (Plain ()) fn_panics (init_state (Plain ()))))))
     = Inl CallbackPanic
   \<and> trackingStore (snd (Accept (trackingMetric (Plain ()) 0)
      (register 1 0 (snd (WithTracking (Plain ()) fn_panics (init_state (Plain ()))))))) 1
     = Some 0"
  by (simp add: WithTracking_def newTrackingMetric_eq init_state_def register_def
        fn_panics_def Accept_eq trackingMetric_decr_eq Let_def)

subsection \<open>The registry\<close>

text \<open>
  C7, as the code has it. The tracking operations never create a registry entry:
  \<open>WithTracking\<close>, \<open>WithGroupTracking\<close> and \<open>Copy\<close> leave the registry as it is, so a
  live reference need not have an entry. A resolution that returns and took the reference
  count from 1 to zero has called the notify function and then deleted the entry of the
  record's id, which is absent when the resolution returns; a resolution that returns
  otherwise, or panics, leaves the registry as it is.
\<close>

theorem registry_entry_deleted_by_last_resolution:
  "trackingStore (snd (WithTracking x fn s)) = trackingStore s
   \<and> trackingStore (snd (WithGroupTracking g fn s)) = trackingStore s
   \<and> trackingStore (snd (Copy m s)) = trackingStore s
   \<and> (case resolve r m s of
        (Inl e, s1) \<Rightarrow> trackingStore s1 = trackingStore s
      | (Inr u, s1) \<Rightarrow>
          (if Rc (heap s ! d m) = 1
           then trackingStore s1 = (trackingStore s)(Id_td (heap s ! d m) := None)
              \<and> trackingStore s1 (Id_td (heap s ! d m)) = None
              \<and> notified s1 = notified s @ [info_of (counted r (heap s ! d m))]
           else trackingStore s1 = trackingStore s \<and> notified s1 = notified s))"
proof -
  have 1: "trackingStore (snd (WithTracking x fn s)) = trackingStore s"
    by (simp add: WithTracking_def newTrackingMetric_eq)
  have 2: "trackingStore (snd (WithGroupTracking g fn s)) = trackingStore s"
    by (simp add: WithGroupTracking_def newTrackingMetricGroup_eq group_state_def)
  have 3: "trackingStore (snd (Copy m s)) = trackingStore s"
    by (rule Copy_trackingStore)
  have 4: "(case resolve r m s of
        (Inl e, s1) \<Rightarrow> trackingStore s1 = trackingStore s
      | (Inr u, s1) \<Rightarrow>
          (if Rc (heap s ! d m) = 1
           then trackingStore s1 = (trackingStore s)(Id_td (heap s ! d m) := None)
              \<and> trackingStore s1 (Id_td (heap s ! d m)) = None
              \<and> notified s1 = notified s @ [info_of (counted r (heap s ! d m))]
           else trackingStore s1 = trackingStore s \<and> notified s1 = notified s))"
  proof (cases "d m < length (heap s)")
    case False
    then show ?thesis by (simp add: resolve_nil)
  next
    case True
    show ?thesis
      unfolding resolve_valid [OF True]
      by (simp add: Let_def counted_fields info_of_Rc word32_minus_one_eq_0
            split: outcome.splits)
  qed
  show ?thesis using 1 2 3 4 by simp
qed

theorem registry_entry_deleted_by_last_resolution_witness:
  "trackingStore (snd (resolve ByAccept (trackingMetric (Plain ()) 0)
      (register 1 0 (snd (WithTracking (Plain ()) fn_returns (init_state (Plain ())))))))
     = Map.empty"
  using registry_entry_deleted_by_last_resolution
    [of "Plain ()" fn_returns
        "register 1 0 (snd (WithTracking (Plain ()) fn_returns (init_state (Plain ()))))"
        "\<lparr>ptr = 0, len = 0\<rparr>" "trackingMetric (Plain ()) 0" ByAccept]
  by (simp add: WithTracking_def newTrackingMetric_eq init_state_def register_def
        fn_returns_def counted_def info_of_def Accept_eq trackingMetric_decr_eq Let_def)

text \<open>
  The claim as the specification states it, that the entry is present exactly while a
  reference is live, fails: after \<open>WithTracking\<close> in a fresh process the record of id 1
  has one live reference and the registry has no entry for 1.
\<close>

theorem live_reference_without_registry_entry:
  "fst (WithTracking (Plain ()) fn_returns (init_state (Plain ())))
     = (Tracking (trackingMetric (Plain ()) 0), 1)
   \<and> RefCount 0 (snd (WithTracking (Plain ()) fn_returns (init_state (Plain ())))) = Inr 1
   \<and> trackingStore (snd (WithTracking (Plain ()) fn_returns (init_state (Plain ())))) 1 = None"
  by (simp add: WithTracking_def newTrackingMetric_eq init_state_def RefCount_def deref_def)

subsection \<open>Groups\<close>

text \<open>
  C9, as the code has it. \<open>WithGroupTracking\<close> works in place: when it returns, it
  returns the slice it was given (the same cells), each cell of the slice holds the
  tracked wrapper of what the cell held, every other cell is unchanged, every metric of
  the slice reports the id returned with the slice as its \<open>TrackingID\<close>, and the
  reference count of the shared record is the length of the slice converted to \<open>int32\<close>,
  which is the length itself when that is below \<open>2 ^ 31\<close>.
\<close>

theorem group_tracking_wraps_in_place:
  assumes "WithGroupTracking g fn s = (Inr (g', tid), s1)"
  shows "g' = g \<and> tid = lastID s + 1
     \<and> slice_elems s1 g'
         = map (\<lambda>x. Tracking (trackingMetric x (length (heap s)))) (slice_elems s g)
     \<and> (\<forall>a. \<not> (ptr g \<le> a \<and> a < ptr g + len g) \<longrightarrow> mem s1 a = mem s a)
     \<and> (\<forall>x \<in> set (slice_elems s1 g'). \<exists>tm. x = Tracking tm \<and> TrackingID tm s1 = Inr tid)
     \<and> RefCount (length (heap s)) s1 = Inr (of_nat (len g))
     \<and> (len g < 2 ^ 31 \<longrightarrow> sint (Rc (heap s1 ! length (heap s))) = int (len g))"
proof -
  note f = WithGroupTracking_Inr [OF assms]
  have e: "slice_elems s1 g = slice_elems (group_state g fn s) g"
    by (simp add: slice_elems_def f(4))
  have 1: "slice_elems s1 g'
         = map (\<lambda>x. Tracking (trackingMetric x (length (heap s)))) (slice_elems s g)"
    by (simp add: f(1) e slice_elems_group_state)
  have 2: "\<forall>a. \<not> (ptr g \<le> a \<and> a < ptr g + len g) \<longrightarrow> mem s1 a = mem s a"
    by (simp add: f(4) group_state_def)
  have 3: "\<forall>x \<in> set (slice_elems s1 g'). \<exists>tm. x = Tracking tm \<and> TrackingID tm s1 = Inr tid"
    unfolding 1 by (auto simp add: TrackingID_def deref_def f(2,3))
  have 4: "RefCount (length (heap s)) s1 = Inr (of_nat (len g))"
    by (simp add: RefCount_def deref_def f(3))
  have 5: "len g < 2 ^ 31 \<longrightarrow> sint (Rc (heap s1 ! length (heap s))) = int (len g)"
    by (simp add: f(3) sint_of_nat_small)
  show ?thesis using f(1,2) 1 2 3 4 5 by simp
qed

theorem group_tracking_wraps_in_place_witness:
  "WithGroupTracking \<lparr>ptr = 5, len = 2\<rparr> fn_returns (init_state (Plain ()))
     = (Inr (\<lparr>ptr = 5, len = 2\<rparr>, 1),
        snd (WithGroupTracking \<lparr>ptr = 5, len = 2\<rparr> fn_returns (init_state (Plain ()))))
   \<and> slice_elems
        (snd (WithGroupTracking \<lparr>ptr = 5, len = 2\<rparr> fn_returns (init_state (Plain ()))))
        \<lparr>ptr = 5, len = 2\<rparr>
     = [Tracking (trackingMetric (Plain ()) 0), Tracking (trackingMetric (Plain ()) 0)]
   \<and> RefCount 0
        (snd (WithGroupTracking \<lparr>ptr = 5, len = 2\<rparr> fn_returns (init_state (Plain ()))))
     = Inr 2"
proof -
  have h: "WithGroupTracking \<lparr>ptr = 5, len = 2\<rparr> fn_returns (init_state (Plain ()))
     = (Inr (\<lparr>ptr = 5, len = 2\<rparr>, 1),
        snd (WithGroupTracking \<lparr>ptr = 5, len = 2\<rparr> fn_returns (init_state (Plain ()))))"
    by (simp add: WithGroupTracking_def newTrackingMetricGroup_eq init_state_def)
  have e: "slice_elems (init_state (Plain ())) \<lparr>ptr = 5, len = 2\<rparr> = [Plain (), Plain ()]"
    by (simp add: slice_elems_def init_state_def numeral_2_eq_2)
  show ?thesis
    using group_tracking_wraps_in_place [OF h] h
    by (simp add: e [unfolded init_state_def] init_state_def)
qed

text \<open>
  The claim as the specification states it, that the reference count equals the length of
  every slice, fails where the counter wraps: for a slice of \<open>2 ^ 31\<close> metrics the count
  on return is \<open>- 2 ^ 31\<close>.
\<close>

theorem group_count_wraps_negative:
  "fst (WithGroupTracking \<lparr>ptr = 0, len = 2 ^ 31\<rparr> fn_returns (init_state (Plain ())))
     = Inr (\<lparr>ptr = 0, len = 2 ^ 31\<rparr>, 1)
   \<and> RefCount 0 (snd (WithGroupTracking \<lparr>ptr = 0, len = 2 ^ 31\<rparr> fn_returns
        (init_state (Plain ())))) = Inr (- (2 ^ 31))
   \<and> sint (- (2 ^ 31) :: int32) = - (2 ^ 31)"
  by (simp add: WithGroupTracking_def newTrackingMetricGroup_eq group_state_def
        init_state_def RefCount_def deref_def)

subsection \<open>Resolving a group\<close>

text \<open>
  C1, as the code has it. For every \<open>N\<close> below \<open>2 ^ 31\<close>: after a tracked group
  has been created over a slice of \<open>N\<close> metrics, resolving each metric of the slice
  exactly once, in any order and with any mix of \<open>Accept\<close>, \<open>Reject\<close> and \<open>Drop\<close>,
  calls the notify function exactly once. The delivery information carries the id of the
  group, the number of \<open>Accept\<close> calls as accepted and the number of \<open>Reject\<close> calls as
  rejected, the count of the last resolution included, since \<open>Accept\<close> and \<open>Reject\<close>
  update their counter first and then run the decrement that notifies at zero; accepts,
  rejects and drops add up to \<open>N\<close>. For \<open>N > 0\<close> the call comes with the last resolution: no proper prefix of the
  resolutions panics or notifies. For \<open>N = 0\<close> it has come with the creation.
\<close>

theorem group_resolution_notifies_once:
  assumes "len g < 2 ^ 31"
    and "WithGroupTracking g fn s = (Inr (g', tid), s1)"
    and "mset (map (\<lambda>p. Tracking (snd p)) rs) = mset (slice_elems s1 g')"
  shows "notified (snd (resolve_all rs s1))
           = notified s @ [\<lparr>id_di = tid, accepted = int (accepts rs),
                             rejected = int (rejects rs)\<rparr>]
     \<and> fst (resolve_all rs s1)
           = (case fn \<lparr>id_di = tid, accepted = int (accepts rs), rejected = int (rejects rs)\<rparr> of
                Returns \<Rightarrow> Inr () | Panics \<Rightarrow> Inl CallbackPanic)
     \<and> accepts rs + rejects rs + drops rs = len g
     \<and> (\<forall>k < length rs. fst (resolve_all (take k rs) s1) = Inr ()
           \<and> notified (snd (resolve_all (take k rs) s1)) = notified s)
     \<and> Accept tm s' = trackingMetric_decr tm (snd (accept (d tm) s'))
     \<and> Reject tm s' = trackingMetric_decr tm (snd (reject (d tm) s'))"
proof -
  note f = WithGroupTracking_Inr [OF assms(2)]
  note order = counter_before_decrement [of tm s']
  let ?a = "length (heap s)"
  have elems: "slice_elems s1 g'
         = map (\<lambda>x. Tracking (trackingMetric x ?a)) (slice_elems s g)"
    by (simp add: f(1,4) slice_elems_def group_state_def)
  have len: "length rs = len g"
    using arg_cong [OF assms(3), of size] by (simp add: f(1) slice_elems_def)
  have ds: "\<forall>p \<in> set rs. d (snd p) = ?a"
  proof
    fix p assume "p \<in> set rs"
    then have "Tracking (snd p) \<in> set (map (\<lambda>p. Tracking (snd p)) rs)" by simp
    then have "Tracking (snd p) \<in> set (slice_elems s1 g')"
      using assms(3) by (metis set_mset_mset)
    then show "d (snd p) = ?a" unfolding elems by auto
  qed
  have v: "?a < length (heap s1)" by (simp add: f(3))
  have t: "heap s1 ! ?a = \<lparr>Id_td = tid, Rc = of_nat (length rs), AcceptCount = 0,
                          RejectCount = 0, notifyFunc = fn\<rparr>"
    by (simp add: f(2,3) len)
  have total: "accepts rs + rejects rs + drops rs = len g"
    by (simp add: counts_total len)
  have sa: "sint (of_nat (accepts rs) :: int32) = int (accepts rs)"
    using accepts_le [of rs] assms(1) len by (intro sint_of_nat_small) simp
  have sr: "sint (of_nat (rejects rs) :: int32) = int (rejects rs)"
    using rejects_le [of rs] assms(1) len by (intro sint_of_nat_small) simp
  have pre: "fst (resolve_all (take k rs) s1) = Inr ()
           \<and> notified (snd (resolve_all (take k rs) s1)) = notified s" if "k < length rs" for k
  proof -
    have "resolve_all (take k rs) s1 =
       (Inr (), s1\<lparr>heap := (heap s1)[?a := foldl (\<lambda>t p. resolved (fst p) t) (heap s1 ! ?a) (take k rs)]\<rparr>)"
      using that assms(1) len ds v
      by (intro resolve_all_partial [where n = "length rs"])
         (auto simp add: t dest: in_set_takeD)
    moreover have "notified s1 = notified s" using that len by (simp add: f(5))
    ultimately show ?thesis by simp
  qed
  show ?thesis
  proof (cases "rs = []")
    case True
    then have "len g = 0" using len by simp
    then show ?thesis
      using True f(5,6) f(2) order by (simp add: accepts_def rejects_def drops_def)
  next
    case False
    then have "0 < len g" using len by (cases rs) auto
    then have n: "notified s1 = notified s" by (simp add: f(5))
    have "length rs < 2 ^ 31" using assms(1) len by simp
    note c = resolve_all_complete [OF v ds _ False this]
    show ?thesis
      using c pre total order by (simp add: t sa sr n)
  qed
qed

theorem group_resolution_notifies_once_witness:
  "(2::nat) < 2 ^ 31
   \<and> notified (snd (resolve_all
        [(ByAccept, trackingMetric (Plain ()) 0), (ByReject, trackingMetric (Plain ()) 0)]
        (snd (WithGroupTracking \<lparr>ptr = 0, len = 2\<rparr> fn_returns (init_state (Plain ()))))))
     = [\<lparr>id_di = 1, accepted = 1, rejected = 1\<rparr>]"
proof -
  let ?g = "\<lparr>ptr = 0, len = 2\<rparr>"
  let ?s1 = "snd (WithGroupTracking ?g fn_returns (init_state (Plain ())))"
  have h1: "len ?g < 2 ^ 31" by simp
  have h2: "WithGroupTracking ?g fn_returns (init_state (Plain ())) = (Inr (?g, 1), ?s1)"
    by (simp add: WithGroupTracking_def newTrackingMetricGroup_eq init_state_def)
  have e: "slice_elems ?s1 ?g
     = [Tracking (trackingMetric (Plain ()) 0), Tracking (trackingMetric (Plain ()) 0)]"
    by (simp add: WithGroupTracking_def newTrackingMetricGroup_eq init_state_def
          group_state_def slice_elems_def numeral_2_eq_2)
  have h3: "mset (map (\<lambda>p. Tracking (snd p))
        [(ByAccept, trackingMetric (Plain ()) 0), (ByReject, trackingMetric (Plain ()) 0)])
      = mset (slice_elems ?s1 ?g)"
    unfolding e by simp
  show ?thesis
    using group_resolution_notifies_once
      [OF h1 h2 h3, where tm = "trackingMetric (Plain ()) 0" and s' = "init_state (Plain ())"]
    by (simp add: accepts_def rejects_def init_state_def)
qed

text \<open>
  The claim as the specification states it, for every \<open>N\<close>, fails where the reference
  count wraps: over a slice of \<open>2 ^ 31 + 1\<close> metrics the count is negative on return, the
  first resolution of a metric of the slice panics with the negative count, and the notify
  function is never called.
\<close>

theorem group_beyond_int32_panics:
  "fst (WithGroupTracking \<lparr>ptr = 0, len = Suc (2 ^ 31)\<rparr> fn_returns (init_state (Plain ())))
     = Inr (\<lparr>ptr = 0, len = Suc (2 ^ 31)\<rparr>, 1)
   \<and> map Tracking (map snd (replicate (Suc (2 ^ 31)) (ByAccept, trackingMetric (Plain ()) 0)))
     = slice_elems
         (snd (WithGroupTracking \<lparr>ptr = 0, len = Suc (2 ^ 31)\<rparr> fn_returns
                 (init_state (Plain ()))))
         \<lparr>ptr = 0, len = Suc (2 ^ 31)\<rparr>
   \<and> fst (resolve_all (replicate (Suc (2 ^ 31)) (ByAccept, trackingMetric (Plain ()) 0))
         (snd (WithGroupTracking \<lparr>ptr = 0, len = Suc (2 ^ 31)\<rparr> fn_returns
                 (init_state (Plain ())))))
     = Inl NegativeRefcount
   \<and> notified (snd (resolve_all
         (replicate (Suc (2 ^ 31)) (ByAccept, trackingMetric (Plain ()) 0))
         (snd (WithGroupTracking \<lparr>ptr = 0, len = Suc (2 ^ 31)\<rparr> fn_returns
                 (init_state (Plain ()))))))
     = []"
proof -
  define n :: nat where "n = 2 ^ 31"
  define g where "g = \<lparr>ptr = 0, len = Suc n\<rparr>"
  define s0 :: "unit state" where "s0 = init_state (Plain ())"
  define tm :: "unit Metric trackingMetric" where "tm = trackingMetric (Plain ()) 0"
  define s1 where "s1 = snd (WithGroupTracking g fn_returns s0)"
  have lg: "len g = Suc n" "ptr g = 0" by (simp_all add: g_def)
  have W: "WithGroupTracking g fn_returns s0 = (Inr (g, 1), group_state g fn_returns s0)"
    by (simp add: WithGroupTracking_def newTrackingMetricGroup_eq lg s0_def init_state_def)
  have s1: "s1 = group_state g fn_returns s0" by (simp add: s1_def W)
  have e0: "slice_elems s0 g = replicate (Suc n) (Plain ())"
    unfolding slice_elems_def lg s0_def init_state_def
    by (simp add: map_replicate_const del: upt_Suc replicate_Suc)
  have e: "slice_elems s1 g = replicate (Suc n) (Tracking tm)"
    unfolding s1 slice_elems_group_state e0
    by (simp add: s0_def init_state_def tm_def del: replicate_Suc)
  have m: "map Tracking (map snd (replicate (Suc n) (ByAccept, tm))) = slice_elems s1 g"
    unfolding e by (simp del: replicate_Suc)
  have h: "heap s1 = [\<lparr>Id_td = 1, Rc = of_nat (Suc n), AcceptCount = 0, RejectCount = 0,
                       notifyFunc = fn_returns\<rparr>]"
    and nt: "notified s1 = []"
    by (simp_all add: s1 group_state_def s0_def init_state_def lg del: of_nat_Suc)
  have v: "d tm < length (heap s1)" by (simp add: tm_def h)
  have neg: "sint (of_nat n :: 32 word) < 0"
    unfolding n_def sint_2_31 by simp
  have first: "fst (resolve ByAccept tm s1) = Inl NegativeRefcount"
    "notified (snd (resolve ByAccept tm s1)) = []"
    unfolding resolve_valid [OF v] using neg
    by (simp_all add: Let_def h nt tm_def counted_def)
  have r: "fst (resolve_all (replicate (Suc n) (ByAccept, tm)) s1) = Inl NegativeRefcount"
     "notified (snd (resolve_all (replicate (Suc n) (ByAccept, tm)) s1)) = []"
    using first by (simp_all only: replicate_Suc resolve_all_stops [OF first(1)])
  show ?thesis
    using W m r unfolding s1_def g_def s0_def tm_def n_def by simp
qed

subsection \<open>A count driven below zero\<close>

text \<open>
  C2, as the code has it. A resolution whose decrement leaves the reference count
  negative, as the resolution of a record whose count is 0 does, panics: it neither
  notifies nor touches the registry. If the count of the record is the number \<open>n\<close> of its
  live instances, a disciplined sequence of copies and resolutions of these instances
  never reaches that panic, as long as at most \<open>2 ^ 31\<close> instances are live when a
  call is made.
\<close>

theorem negative_count_panics:
  assumes "d m < length (heap s)"
  shows "(sint (Rc (heap s ! d m) - 1) < 0 \<longrightarrow>
            fst (resolve r m s) = Inl NegativeRefcount
          \<and> notified (snd (resolve r m s)) = notified s
          \<and> trackingStore (snd (resolve r m s)) = trackingStore s)
     \<and> (Rc (heap s ! d m) = 0 \<longrightarrow> fst (resolve r m s) = Inl NegativeRefcount)
     \<and> (Metric m = Plain p \<and> Rc (heap s ! d m) = of_nat n \<and> disciplined n cs
          \<and> live_within (2 ^ 31) n cs \<longrightarrow>
            fst (run_calls cs m s) \<noteq> Inl NegativeRefcount)"
proof -
  have 1: "fst (resolve r m s) = Inl NegativeRefcount
          \<and> notified (snd (resolve r m s)) = notified s
          \<and> trackingStore (snd (resolve r m s)) = trackingStore s"
    if "sint (Rc (heap s ! d m) - 1) < 0"
    using that by (simp add: resolve_valid [OF assms] Let_def)
  have 2: "fst (resolve r m s) = Inl NegativeRefcount" if "Rc (heap s ! d m) = 0"
    using 1 that by simp
  show ?thesis using 1 2 run_calls_never_negative [OF assms] by blast
qed

theorem negative_count_panics_witness:
  "fst (resolve ByAccept (trackingMetric (Plain ()) 0)
      (snd (resolve ByAccept (trackingMetric (Plain ()) 0)
         (snd (WithTracking (Plain ()) fn_returns (init_state (Plain ())))))))
     = Inl NegativeRefcount
   \<and> fst (run_calls [MakeCopy, Resolve ByAccept, Resolve ByDrop] (trackingMetric (Plain ()) 0)
         (snd (WithTracking (Plain ()) fn_returns (init_state (Plain ())))))
     \<noteq> Inl NegativeRefcount"
proof -
  let ?m = "trackingMetric (Plain ()) 0 :: unit Metric trackingMetric"
  let ?s1 = "snd (WithTracking (Plain ()) fn_returns (init_state (Plain ())))"
  let ?s2 = "snd (resolve ByAccept ?m ?s1)"
  have s1: "?s1 = \<lparr>lastID = 1, heap = [\<lparr>Id_td = 1, Rc = 1, AcceptCount = 0, RejectCount = 0,
                 notifyFunc = fn_returns\<rparr>], mem = (\<lambda>_. Plain ()),
                 trackingStore = Map.empty, notified = []\<rparr>"
    by (simp add: WithTracking_def newTrackingMetric_eq init_state_def)
  have s2: "heap ?s2 = [\<lparr>Id_td = 1, Rc = 0, AcceptCount = 1, RejectCount = 0,
                 notifyFunc = fn_returns\<rparr>]"
    by (simp add: s1 Accept_eq trackingMetric_decr_eq Let_def fn_returns_def)
  have v1: "d ?m < length (heap ?s1)" by (simp add: s1)
  have v2: "d ?m < length (heap ?s2)" unfolding s2 by simp
  have z: "Rc (heap ?s2 ! d ?m) = 0" unfolding s2 by simp
  have a: "fst (resolve ByAccept ?m ?s2) = Inl NegativeRefcount"
    using negative_count_panics [OF v2, of ByAccept] z by blast
  have b: "fst (run_calls [MakeCopy, Resolve ByAccept, Resolve ByDrop] ?m ?s1)
             \<noteq> Inl NegativeRefcount"
    using negative_count_panics [OF v1, of _ "()" 1 "[MakeCopy, Resolve ByAccept, Resolve ByDrop]"]
    by (simp add: s1)
  show ?thesis using a b by simp
qed

text \<open>
  The claim as the specification states it, without a bound on the live instances, fails
  where the reference count wraps: copy a tracked metric \<open>2 ^ 31\<close> times, which is
  disciplined, and accept one of the \<open>2 ^ 31 + 1\<close> live instances; the call panics with
  the negative count.
\<close>

theorem disciplined_calls_reach_negative_count:
  "disciplined 1 (replicate (2 ^ 31) MakeCopy @ [Resolve ByAccept])
   \<and> fst (run_calls (replicate (2 ^ 31) MakeCopy @ [Resolve ByAccept])
         (trackingMetric (Plain ()) 0)
         (snd (WithTracking (Plain ()) fn_returns (init_state (Plain ())))))
     = Inl NegativeRefcount"
proof -
  define k :: nat where "k = 2 ^ 31"
  define m :: "unit Metric trackingMetric" where "m = trackingMetric (Plain ()) 0"
  define s1 :: "unit state" where
    "s1 = snd (WithTracking (Plain ()) fn_returns (init_state (Plain ())))"
  have s1: "s1 = \<lparr>lastID = 1, heap = [\<lparr>Id_td = 1, Rc = 1, AcceptCount = 0, RejectCount = 0,
                 notifyFunc = fn_returns\<rparr>], mem = (\<lambda>_. Plain ()),
                 trackingStore = Map.empty, notified = []\<rparr>"
    by (simp add: s1_def WithTracking_def newTrackingMetric_eq init_state_def)
  have v: "d m < length (heap s1)" and pl: "Metric m = Plain ()"
    by (simp_all add: m_def s1)
  have dis: "disciplined 1 (replicate k MakeCopy @ [Resolve ByAccept])"
    by (simp add: disciplined_copies)
  let ?s2 = "s1\<lparr>heap := (heap s1)[d m := (heap s1 ! d m)\<lparr>Rc := Rc (heap s1 ! d m) + of_nat k\<rparr>]\<rparr>"
  have v2: "d m < length (heap ?s2)" using v by simp
  have neg: "sint (of_nat k :: 32 word) < 0"
    unfolding k_def sint_2_31 by simp
  have "run_calls (replicate k MakeCopy @ [Resolve ByAccept]) m s1
          = run_calls [Resolve ByAccept] m ?s2"
    by (rule run_calls_copies [OF v pl])
  moreover have "fst (resolve ByAccept m ?s2) = Inl NegativeRefcount"
    unfolding resolve_valid [OF v2] using neg
    by (simp add: Let_def s1 m_def counted_def)
  ultimately have "fst (run_calls (replicate k MakeCopy @ [Resolve ByAccept]) m s1)
      = Inl NegativeRefcount"
    by (simp split: prod.splits sum.splits)
  then show ?thesis using dis unfolding k_def m_def s1_def by simp
qed

end
